theory Spec2Isabelle
  imports Complex_Main "HOL-Library.AList" "HOL-Library.Sublist"
begin

section \<open>JavaScript values used by the runner\<close>

text \<open>
  A JavaScript \<^verbatim>\<open>number\<close> that results from a division or a subtraction. Finite
  values are kept exact (as rationals): binary floating-point rounding and the sign of
  zero are not modelled. Division by zero gives \<^verbatim>\<open>NaN\<close> or an infinity, as in
  JavaScript, and not HOL's \<open>x / 0 = 0\<close>.
\<close>

datatype jsnum = Num rat | NaN | PosInf | NegInf

definition js_div :: "rat \<Rightarrow> rat \<Rightarrow> jsnum" where
  "js_div a b =
     (if b = 0 then (if a = 0 then NaN else if 0 < a then PosInf else NegInf)
      else Num (a / b))"

fun js_sub :: "jsnum \<Rightarrow> jsnum \<Rightarrow> jsnum" where
  "js_sub (Num a) (Num b) = Num (a - b)"
| "js_sub NaN y = NaN"
| "js_sub x NaN = NaN"
| "js_sub PosInf PosInf = NaN"
| "js_sub NegInf NegInf = NaN"
| "js_sub PosInf y = PosInf"
| "js_sub NegInf y = NegInf"
| "js_sub (Num a) PosInf = NegInf"
| "js_sub (Num a) NegInf = PosInf"

subsection \<open>Strings\<close>

text \<open>
  Strings are byte strings. \<open>NL\<close> is the line feed. \<open>isSpace\<close> is the ASCII part of what
  \<^verbatim>\<open>\s\<close> and \<^verbatim>\<open>String.prototype.trim\<close> treat as white space.
\<close>

definition NL :: char where
  "NL = CHR 0x0A"

definition isSpace :: "char \<Rightarrow> bool" where
  "isSpace c = (c \<in> set [CHR '' '', CHR 0x09, CHR 0x0A, CHR 0x0B, CHR 0x0C, CHR 0x0D])"

definition trim :: "string \<Rightarrow> string" where
  "trim s = rev (dropWhile isSpace (rev (dropWhile isSpace s)))"

text \<open>\<^verbatim>\<open>s.split(c)\<close> for a one-character separator: the empty string gives one empty part.\<close>

fun split_char :: "char \<Rightarrow> string \<Rightarrow> string list" where
  "split_char c [] = [[]]"
| "split_char c (x # xs) =
     (if x = c then [] # split_char c xs
      else (case split_char c xs of [] \<Rightarrow> [[x]] | l # ls \<Rightarrow> (x # l) # ls))"

text \<open>\<^verbatim>\<open>parts.join(sep)\<close>.\<close>

fun join_with :: "string \<Rightarrow> string list \<Rightarrow> string" where
  "join_with sep [] = []"
| "join_with sep [l] = l"
| "join_with sep (l # ls) = l @ sep @ join_with sep ls"

abbreviation split_nl :: "string \<Rightarrow> string list" where
  "split_nl \<equiv> split_char NL"

abbreviation join_nl :: "string list \<Rightarrow> string" where
  "join_nl \<equiv> join_with [NL]"

text \<open>Decimal notation, as a template literal prints an integer.\<close>

definition digit_char :: "nat \<Rightarrow> char" where
  "digit_char d = ''0123456789'' ! d"

fun show_nat :: "nat \<Rightarrow> string" where
  "show_nat n =
     (if n < 10 then [digit_char n] else show_nat (n div 10) @ [digit_char (n mod 10)])"

declare show_nat.simps [simp del]

definition show_int :: "int \<Rightarrow> string" where
  "show_int i = (if i < 0 then CHR ''-'' # show_nat (nat (- i)) else show_nat (nat i))"

subsection \<open>Regular expressions\<close>

text \<open>
  The fragment of JavaScript regular expressions the runner uses, with a backtracking
  matcher in continuation-passing style: alternatives are tried left to right, greedy
  quantifiers take as much as they can and give back, lazy ones take as little as they
  can. A leading \<^verbatim>\<open>^\<close> (no \<^verbatim>\<open>m\<close> flag) is modelled by matching at the start of the
  string only (\<open>rx_match_here\<close>); \<open>EndOfInput\<close> is \<^verbatim>\<open>$\<close>.
\<close>

datatype cclass =
    AnyChar   \<comment> \<open>\<^verbatim>\<open>[\s\S]\<close>\<close>
  | Space     \<comment> \<open>\<^verbatim>\<open>\s\<close>\<close>
  | NotNL     \<comment> \<open>\<^verbatim>\<open>[^\n]\<close>\<close>
  | Dot       \<comment> \<open>\<^verbatim>\<open>.\<close>: anything but a line terminator\<close>

fun in_class :: "cclass \<Rightarrow> char \<Rightarrow> bool" where
  "in_class AnyChar c = True"
| "in_class Space c = isSpace c"
| "in_class NotNL c = (c \<noteq> NL)"
| "in_class Dot c = (c \<noteq> NL \<and> c \<noteq> CHR 0x0D)"

datatype rx =
    Lit string
  | Seq rx rx
  | Alt rx rx
  | Opt rx            \<comment> \<open>\<^verbatim>\<open>r?\<close>\<close>
  | Star cclass       \<comment> \<open>\<^verbatim>\<open>c*\<close>\<close>
  | Plus cclass       \<comment> \<open>\<^verbatim>\<open>c+\<close>\<close>
  | LazyStar cclass   \<comment> \<open>\<^verbatim>\<open>c*?\<close>\<close>
  | Group nat rx      \<comment> \<open>a capturing group and its number\<close>
  | Lookahead rx      \<comment> \<open>\<^verbatim>\<open>(?=r)\<close>\<close>
  | EndOfInput        \<comment> \<open>\<^verbatim>\<open>$\<close>\<close>

type_synonym caps = "(nat \<times> string) list"
type_synonym mres = "(string \<times> caps) option"

fun star_greedy :: "(char \<Rightarrow> bool) \<Rightarrow> string \<Rightarrow> (string \<Rightarrow> mres) \<Rightarrow> mres" where
  "star_greedy P [] k = k []"
| "star_greedy P (x # xs) k =
     (if P x then (case star_greedy P xs k of Some r \<Rightarrow> Some r | None \<Rightarrow> k (x # xs))
      else k (x # xs))"

fun star_lazy :: "(char \<Rightarrow> bool) \<Rightarrow> string \<Rightarrow> (string \<Rightarrow> mres) \<Rightarrow> mres" where
  "star_lazy P [] k = k []"
| "star_lazy P (x # xs) k =
     (case k (x # xs) of Some r \<Rightarrow> Some r
      | None \<Rightarrow> (if P x then star_lazy P xs k else None))"

text \<open>
  \<open>rmatch r s c k\<close>: match \<open>r\<close> at the front of \<open>s\<close> with the captures \<open>c\<close> so far, then
  continue with \<open>k\<close> on the rest; \<open>None\<close> makes the matcher backtrack.
\<close>

fun rmatch :: "rx \<Rightarrow> string \<Rightarrow> caps \<Rightarrow> (string \<Rightarrow> caps \<Rightarrow> mres) \<Rightarrow> mres" where
  "rmatch (Lit l) s c k = (if prefix l s then k (drop (length l) s) c else None)"
| "rmatch (Seq a b) s c k = rmatch a s c (\<lambda>s' c'. rmatch b s' c' k)"
| "rmatch (Alt a b) s c k =
     (case rmatch a s c k of Some r \<Rightarrow> Some r | None \<Rightarrow> rmatch b s c k)"
| "rmatch (Opt a) s c k =
     (case rmatch a s c k of Some r \<Rightarrow> Some r | None \<Rightarrow> k s c)"
| "rmatch (Star cl) s c k = star_greedy (in_class cl) s (\<lambda>s'. k s' c)"
| "rmatch (Plus cl) s c k =
     (case s of [] \<Rightarrow> None
      | x # xs \<Rightarrow>
          if in_class cl x then star_greedy (in_class cl) xs (\<lambda>s'. k s' c) else None)"
| "rmatch (LazyStar cl) s c k = star_lazy (in_class cl) s (\<lambda>s'. k s' c)"
| "rmatch (Group i a) s c k =
     rmatch a s c (\<lambda>s' c'. k s' (AList.update i (take (length s - length s') s) c'))"
| "rmatch (Lookahead a) s c k =
     (case rmatch a s c (\<lambda>s' c'. Some (s', c')) of
        None \<Rightarrow> None
      | Some (s', c') \<Rightarrow> k s c')"
| "rmatch EndOfInput s c k = (if s = [] then k s c else None)"

text \<open>A match at the start of \<open>s\<close>: the matched text, the captures, the rest.\<close>

definition rx_match_here :: "rx \<Rightarrow> string \<Rightarrow> (string \<times> caps \<times> string) option" where
  "rx_match_here r s =
     (case rmatch r s [] (\<lambda>s' c. Some (s', c)) of
        None \<Rightarrow> None
      | Some (s', c) \<Rightarrow> Some (take (length s - length s') s, c, s'))"

text \<open>The leftmost match in \<open>s\<close>.\<close>

fun rx_search :: "rx \<Rightarrow> string \<Rightarrow> (string \<times> caps \<times> string) option" where
  "rx_search r [] = rx_match_here r []"
| "rx_search r (x # xs) =
     (case rx_match_here r (x # xs) of Some m \<Rightarrow> Some m | None \<Rightarrow> rx_search r xs)"

text \<open>\<^verbatim>\<open>/^r/.test(s)\<close> and \<^verbatim>\<open>s.includes(t)\<close>.\<close>

definition rx_test_start :: "rx \<Rightarrow> string \<Rightarrow> bool" where
  "rx_test_start r s = (rx_match_here r s \<noteq> None)"

definition str_includes :: "string \<Rightarrow> string \<Rightarrow> bool" where
  "str_includes s t = (rx_search (Lit t) s \<noteq> None)"

text \<open>\<^verbatim>\<open>s.replace(/^r/, "")\<close>: drop a match at the start, if there is one.\<close>

definition rx_strip_start :: "rx \<Rightarrow> string \<Rightarrow> string" where
  "rx_strip_start r s = (case rx_match_here r s of None \<Rightarrow> s | Some (m, c, rest) \<Rightarrow> rest)"

definition fence :: string where
  "fence = ''```''"

section \<open>The Output Extractor\<close>

text \<open>
  \<^verbatim>\<open>Map<string, string>\<close>, in insertion order: \<open>AList.update\<close> is \<^verbatim>\<open>set\<close> (a key
  already present keeps its place).
\<close>

type_synonym file_map = "(string \<times> string) list"

definition langHint :: rx where
  "langHint =
     Alt (Lit ''typescript'') (Alt (Lit ''ts'') (Alt (Lit ''javascript'') (Lit ''js'')))"

text \<open>
  \<^verbatim>\<open>/```(?:typescript|ts|javascript|js)?\n(?:\/\/\s*([^\n]+)\n)?([\s\S]*?)\n```(?=\s*\n|$)/g\<close>
\<close>

definition codeBlockRegex :: rx where
  "codeBlockRegex =
     Seq (Lit fence)
    (Seq (Opt langHint)
    (Seq (Lit [NL])
    (Seq (Opt (Seq (Lit ''//'') (Seq (Star Space) (Seq (Group 1 (Plus NotNL)) (Lit [NL])))))
    (Seq (Group 2 (LazyStar AnyChar))
    (Seq (Lit (NL # fence))
         (Lookahead (Alt (Seq (Star Space) (Lit [NL])) EndOfInput)))))))"

text \<open>
  The body of the \<^verbatim>\<open>while\<close> loop of \<^verbatim>\<open>parseGeneratedFiles\<close>: a match is stored when
  both groups are truthy (defined and not the empty string).
\<close>

definition storeMatch :: "caps \<Rightarrow> file_map \<Rightarrow> file_map" where
  "storeMatch c fs =
     (case map_of c 1 of
        None \<Rightarrow> fs
      | Some filename \<Rightarrow>
          (case map_of c 2 of
             None \<Rightarrow> fs
           | Some content \<Rightarrow>
               if filename \<noteq> [] \<and> content \<noteq> []
               then AList.update (rx_strip_start (Lit ''/'') (trim filename)) (trim content) fs
               else fs))"

lemma star_greedy_rest:
  "star_greedy P s k = Some r \<Longrightarrow> \<exists>s'. k s' = Some r \<and> length s' \<le> length s"
proof (induction s)
  case Nil
  then show ?case by auto
next
  case (Cons x xs)
  show ?case
  proof (cases "P x \<and> star_greedy P xs k \<noteq> None")
    case True
    with Cons.prems have "star_greedy P xs k = Some r" by auto
    from Cons.IH [OF this] show ?thesis by auto
  next
    case False
    with Cons.prems have "k (x # xs) = Some r" by (auto split: if_splits option.splits)
    then show ?thesis by blast
  qed
qed

lemma star_lazy_rest:
  "star_lazy P s k = Some r \<Longrightarrow> \<exists>s'. k s' = Some r \<and> length s' \<le> length s"
proof (induction s)
  case Nil
  then show ?case by auto
next
  case (Cons x xs)
  show ?case
  proof (cases "k (x # xs)")
    case None
    with Cons.prems have "star_lazy P xs k = Some r" by (auto split: if_splits)
    from Cons.IH [OF this] show ?thesis by auto
  next
    case (Some a)
    with Cons.prems have "k (x # xs) = Some r" by auto
    then show ?thesis by blast
  qed
qed

lemma rmatch_rest:
  "rmatch r s c k = Some x \<Longrightarrow> \<exists>s' c'. k s' c' = Some x \<and> length s' \<le> length s"
proof (induction r arbitrary: s c k x)
  case (Lit l)
  then show ?case by (auto split: if_splits intro!: exI [of _ "drop (length l) s"])
next
  case (Seq a b)
  from Seq.prems have "rmatch a s c (\<lambda>s' c'. rmatch b s' c' k) = Some x" by simp
  from Seq.IH(1) [OF this] obtain s1 c1
    where 1: "rmatch b s1 c1 k = Some x" and 2: "length s1 \<le> length s" by blast
  from Seq.IH(2) [OF 1] obtain s2 c2
    where "k s2 c2 = Some x" and "length s2 \<le> length s1" by blast
  with 2 show ?case by (meson le_trans)
next
  case (Alt a b)
  then show ?case by (auto split: option.splits)
next
  case (Opt a)
  then show ?case by (auto split: option.splits)
next
  case (Star cl)
  then have "star_greedy (in_class cl) s (\<lambda>s'. k s' c) = Some x" by simp
  from star_greedy_rest [OF this] show ?case by blast
next
  case (Plus cl)
  then obtain y ys where s: "s = y # ys"
    and "star_greedy (in_class cl) ys (\<lambda>s'. k s' c) = Some x"
    by (auto split: list.splits if_splits)
  from star_greedy_rest [OF this(2)] s show ?case by auto
next
  case (LazyStar cl)
  then have "star_lazy (in_class cl) s (\<lambda>s'. k s' c) = Some x" by simp
  from star_lazy_rest [OF this] show ?case by blast
next
  case (Group i a)
  from Group.prems
  have "rmatch a s c (\<lambda>s' c'. k s' (AList.update i (take (length s - length s') s) c'))
          = Some x" by simp
  from Group.IH [OF this] show ?case by blast
next
  case (Lookahead a)
  then show ?case by (auto split: option.splits)
next
  case EndOfInput
  then show ?case by (auto split: if_splits)
qed

lemma rx_search_suffix:
  "rx_search r s = Some m \<Longrightarrow> \<exists>t. suffix t s \<and> rx_match_here r t = Some m"
proof (induction s)
  case Nil
  then show ?case by auto
next
  case (Cons x xs)
  show ?case
  proof (cases "rx_match_here r (x # xs)")
    case None
    with Cons.prems have "rx_search r xs = Some m" by simp
    from Cons.IH [OF this] show ?thesis by (auto intro: suffix_ConsI)
  next
    case (Some a)
    with Cons.prems show ?thesis by auto
  qed
qed

lemma rmatch_Seq_Lit:
  "rmatch (Seq (Lit l) r) s c k = Some x \<Longrightarrow>
     prefix l s \<and> rmatch r (drop (length l) s) c k = Some x"
  by (simp split: if_splits)

lemma rx_match_here_Some:
  "rx_match_here r s = Some (m, c, rest) \<Longrightarrow>
     rmatch r s [] (\<lambda>s' c. Some (s', c)) = Some (rest, c) \<and>
     m = take (length s - length rest) s"
  by (auto simp: rx_match_here_def split: option.splits)

lemma codeBlockRegex_consumes:
  assumes "rx_search codeBlockRegex s = Some (m, c, rest)"
  shows "length rest < length s"
proof -
  from rx_search_suffix [OF assms] obtain t
    where t: "suffix t s" and h: "rx_match_here codeBlockRegex t = Some (m, c, rest)" by blast
  obtain r' where r': "codeBlockRegex = Seq (Lit fence) r'"
    by (simp add: codeBlockRegex_def)
  from rx_match_here_Some [OF h]
  have "rmatch (Seq (Lit fence) r') t [] (\<lambda>s' c. Some (s', c)) = Some (rest, c)"
    unfolding r' by blast
  from rmatch_Seq_Lit [OF this] have p: "prefix fence t"
    and "rmatch r' (drop (length fence) t) [] (\<lambda>s' c. Some (s', c)) = Some (rest, c)"
    by blast+
  from rmatch_rest [OF this(2)] have "length rest \<le> length t - length fence" by auto
  moreover from p have "length fence \<le> length t" by (rule prefix_length_le)
  moreover have "length fence = 3" by (simp add: fence_def)
  moreover from t have "length t \<le> length s" by (rule suffix_length_le)
  ultimately show ?thesis by linarith
qed

text \<open>
  The \<^verbatim>\<open>while ((match = codeBlockRegex.exec(response)) !== null)\<close> loop: with the
  \<^verbatim>\<open>g\<close> flag the next search starts where the last match ended.
\<close>

function primaryPass :: "string \<Rightarrow> file_map \<Rightarrow> file_map" where
  "primaryPass s fs =
     (case rx_search codeBlockRegex s of
        None \<Rightarrow> fs
      | Some (m, c, rest) \<Rightarrow> primaryPass rest (storeMatch c fs))"
  by pat_completeness auto
termination
  by (relation "measure (\<lambda>(s, fs). length s)") (auto dest: codeBlockRegex_consumes)

text \<open>The state of the line scan of \<^verbatim>\<open>extractCodeBlocksWithNestedBackticks\<close>.\<close>

record scan_state =
  inCodeBlock :: bool
  codeBlockContent :: "string list"
  filename :: "string option"
  nestingDepth :: nat
  files :: file_map

text \<open>\<^verbatim>\<open>/^```(typescript|ts|javascript|js)?$/\<close>\<close>

definition fenceStartRegex :: rx where
  "fenceStartRegex = Seq (Lit fence) (Seq (Opt langHint) EndOfInput)"

text \<open>\<^verbatim>\<open>/^\/\/\s*.+\.(ts|js|tsx|jsx)$/\<close>\<close>

definition filenameLineRegex :: rx where
  "filenameLineRegex =
     Seq (Lit ''//'') (Seq (Star Space) (Seq (Plus Dot) (Seq (Lit ''.'')
       (Seq (Alt (Lit ''ts'') (Alt (Lit ''js'') (Alt (Lit ''tsx'') (Lit ''jsx'')))) EndOfInput))))"

text \<open>\<^verbatim>\<open>/^\s*\*\s*```/\<close> and \<^verbatim>\<open>/^\s+```/\<close>\<close>

definition nestedJSDocRegex :: rx where
  "nestedJSDocRegex = Seq (Star Space) (Seq (Lit ''*'') (Seq (Star Space) (Lit fence)))"

definition nestedIndentRegex :: rx where
  "nestedIndentRegex = Seq (Plus Space) (Lit fence)"

text \<open>The body of the \<^verbatim>\<open>for (const line of lines)\<close> loop.\<close>

definition scan_line :: "scan_state \<Rightarrow> string \<Rightarrow> scan_state" where
  "scan_line st line =
     (let trimmedLine = trim line in
      if \<not> inCodeBlock st then
        (if rx_test_start fenceStartRegex trimmedLine \<and> rx_test_start (Lit fence) line
         then st\<lparr>inCodeBlock := True, codeBlockContent := [], filename := None,
                 nestingDepth := 0\<rparr>
         else st)
      else if codeBlockContent st = [] \<and> rx_test_start filenameLineRegex line then
        st\<lparr>filename := Some (trim (rx_strip_start (Seq (Lit ''//'') (Star Space)) line))\<rparr>
      else if rx_test_start nestedJSDocRegex line \<or> rx_test_start nestedIndentRegex line then
        (let st' =
           (if str_includes line fence \<and> \<not> rx_test_start (Lit fence) line
            then st\<lparr>nestingDepth := (if nestingDepth st > 0 then 0 else 1)\<rparr>
            else st)
         in st'\<lparr>codeBlockContent := codeBlockContent st' @ [line]\<rparr>)
      else if trimmedLine = fence \<and> rx_test_start (Lit fence) line \<and> nestingDepth st = 0 then
        (let st' =
           (case filename st of
              None \<Rightarrow> st
            | Some fn \<Rightarrow>
                if fn \<noteq> [] \<and> length (codeBlockContent st) > 0
                then st\<lparr>files := AList.update (rx_strip_start (Lit ''/'') fn)
                                   (trim (join_nl (codeBlockContent st))) (files st)\<rparr>
                else st)
         in st'\<lparr>inCodeBlock := False\<rparr>)
      else st\<lparr>codeBlockContent := codeBlockContent st @ [line]\<rparr>)"

definition extractCodeBlocksWithNestedBackticks :: "string \<Rightarrow> file_map" where
  "extractCodeBlocksWithNestedBackticks response =
     files (foldl scan_line
       \<lparr>inCodeBlock = False, codeBlockContent = [], filename = None, nestingDepth = 0,
        files = []\<rparr>
       (split_nl response))"

definition parseGeneratedFiles :: "string \<Rightarrow> file_map" where
  "parseGeneratedFiles response =
     (let fs = primaryPass response [] in
      if length fs = 0
      then foldl (\<lambda>acc (fname, content). AList.update fname content acc) fs
             (extractCodeBlocksWithNestedBackticks response)
      else fs)"

section \<open>Paths\<close>

text \<open>
  \<^verbatim>\<open>path.join\<close> of Node.js on POSIX: the non-empty arguments are joined with a slash and
  the result is normalized (empty and \<^verbatim>\<open>.\<close> segments dropped, \<^verbatim>\<open>..\<close> resolved against
  the segment before it).
\<close>

definition norm_step :: "bool \<Rightarrow> string list \<Rightarrow> string \<Rightarrow> string list" where
  "norm_step allowAboveRoot res seg =
     (if seg = [] \<or> seg = ''.'' then res
      else if seg = ''..'' then
        (if res \<noteq> [] \<and> last res \<noteq> ''..'' then butlast res
         else if allowAboveRoot then res @ [''..'']
         else res)
      else res @ [seg])"

definition normalizeString :: "string \<Rightarrow> bool \<Rightarrow> string" where
  "normalizeString path allowAboveRoot =
     join_with ''/'' (foldl (norm_step allowAboveRoot) [] (split_char CHR ''/'' path))"

definition normalize :: "string \<Rightarrow> string" where
  "normalize path =
     (if path = [] then ''.''
      else
        let isAbsolute = (hd path = CHR ''/'');
            trailingSeparator = (last path = CHR ''/'');
            p = normalizeString path (\<not> isAbsolute)
        in if p = [] then (if isAbsolute then ''/'' else if trailingSeparator then ''./'' else ''.'')
           else
             let p' = (if trailingSeparator then p @ ''/'' else p)
             in if isAbsolute then ''/'' @ p' else p')"

definition pathJoin :: "string list \<Rightarrow> string" where
  "pathJoin parts =
     (let joined = join_with ''/'' (filter (\<lambda>a. a \<noteq> []) parts)
      in if joined = [] then ''.'' else normalize joined)"

section \<open>Data model (types.ts)\<close>

record Usage =
  inputTokens :: nat
  outputTokens :: nat

datatype ExecutionMode = Sdk | Agent

record AgentConfig =
  command :: string
  args :: "string list option"
  earlyExit :: "bool option"

record SkillDefinition =
  name :: string
  description :: string
  version :: "string option"
  content :: string

text \<open>
  \<open>runs\<close> is a JavaScript number that nothing validates (the command line and the
  environment set it with \<^verbatim>\<open>parseInt\<close>): an integer, possibly negative. \<open>timeout\<close> is in
  seconds.
\<close>

record ExperimentConfig =
  name :: string
  description :: string
  model :: string
  runs :: int
  timeout :: nat
  skill :: "string option"
  evals :: "string list"
  executionMode :: "ExecutionMode option"
  agent :: "AgentConfig option"

record EvalDefinition =
  name :: string
  path :: string
  prompt :: string
  evalFile :: string

text \<open>What \<^verbatim>\<open>runEvalTests\<close> resolves to.\<close>

record TestResult =
  passed :: bool
  testsPassed :: nat
  testsTotal :: nat
  testOutput :: string

text \<open>What \<^verbatim>\<open>executeAgent\<close> resolves to.\<close>

record AgentExecutionResult =
  exitCode :: int
  stdout :: string
  stderr :: string
  success :: bool
  usage :: "Usage option"

text \<open>\<open>testDetails\<close> is left out: the runner never sets it.\<close>

record RunResult =
  runNumber :: int
  passed :: bool
  testsPassed :: nat
  testsTotal :: nat
  durationMs :: nat
  error :: "string option"
  agentOutput :: "string option"
  generatedFiles :: "string list option"
  usage :: "Usage option"

record EvalResult =
  evalName :: string
  totalRuns :: int
  passedRuns :: nat
  passRate :: jsnum
  runs :: "RunResult list"
  avgDurationMs :: jsnum
  totalUsage :: "Usage option"

record ExperimentResult =
  experimentName :: string
  config :: ExperimentConfig
  startedAt :: string
  completedAt :: string
  totalDurationMs :: nat
  evalResults :: "EvalResult list"
  overallPassRate :: jsnum
  totalUsage :: "Usage option"

record EvalComparison =
  evalName :: string
  baselinePassRate :: jsnum
  withSkillPassRate :: jsnum
  improvement :: jsnum
  baselineRuns :: int
  withSkillRuns :: int

record ComparisonResult =
  baseline :: ExperimentResult
  withSkill :: ExperimentResult
  evalComparisons :: "EvalComparison list"
  overallImprovement :: jsnum

record RunnerOptions =
  debug :: "bool option"

section \<open>Effects\<close>

text \<open>
  An awaited call resolves, rejects with a message, or never settles. What the outside
  world answers (the file system, the model, the spawned processes, the clock) is an
  argument of the model; the processes spawned, the signals sent and the workspace
  directories made and removed are logged as events.
\<close>

datatype signal = SIGTERM | SIGKILL

datatype event =
    Spawn string          \<comment> \<open>a child process, by its command\<close>
  | Kill signal nat       \<comment> \<open>a signal delivered to the agent, and when (ms after its spawn)\<close>
  | Mkdir string
  | Rm string

datatype 'a outcome = Returns 'a | Throws string | Hangs

type_synonym 'a eff = "event list \<times> 'a outcome"

definition pure :: "'a \<Rightarrow> 'a eff" where
  "pure a = ([], Returns a)"

definition raise :: "string \<Rightarrow> 'a eff" where
  "raise msg = ([], Throws msg)"

definition lift :: "'a outcome \<Rightarrow> 'a eff" where
  "lift r = ([], r)"

text \<open>\<open>Some msg\<close>: the call throws \<open>msg\<close>.\<close>

definition failing :: "string option \<Rightarrow> unit eff" where
  "failing e = (case e of None \<Rightarrow> ([], Returns ()) | Some msg \<Rightarrow> ([], Throws msg))"

text \<open>Sequencing: \<^verbatim>\<open>const a = await m; ...\<close>\<close>

definition andThen :: "'a eff \<Rightarrow> ('a \<Rightarrow> 'b eff) \<Rightarrow> 'b eff" where
  "andThen m f =
     (case m of
        (ev, Returns a) \<Rightarrow> (case f a of (ev', r) \<Rightarrow> (ev @ ev', r))
      | (ev, Throws msg) \<Rightarrow> (ev, Throws msg)
      | (ev, Hangs) \<Rightarrow> (ev, Hangs))"

text \<open>\<^verbatim>\<open>try { m } catch (error) { h(message) }\<close>\<close>

definition tryCatch :: "'a eff \<Rightarrow> (string \<Rightarrow> 'a eff) \<Rightarrow> 'a eff" where
  "tryCatch m h =
     (case m of
        (ev, Throws msg) \<Rightarrow> (case h msg of (ev', r) \<Rightarrow> (ev @ ev', r))
      | (ev, r) \<Rightarrow> (ev, r))"

section \<open>The Check Runner\<close>

text \<open>How the run of the test runner ends: the copy of the assertion file and of the
  configuration fails; the spawn fails (the \<^verbatim>\<open>error\<close> event); the process closes with its
  exit code (\<open>None\<close> is \<^verbatim>\<open>null\<close>: ended by a signal), its stdout and its stderr.\<close>

datatype vitest_run =
    CopyFailed string
  | SpawnError string
  | Closed "int option" string string

text \<open>The fields read from the parsed report; \<open>None\<close> is a missing (or null) field.\<close>

record vitest_report =
  reportSuccess :: "bool option"
  numPassedTests :: "nat option"
  numTotalTests :: "nat option"

text \<open>\<open>jsonParse\<close> is \<^verbatim>\<open>JSON.parse\<close> read as a report; \<open>None\<close>: it throws.\<close>

record check_env =
  vitest :: vitest_run
  jsonParse :: "string \<Rightarrow> vitest_report option"

text \<open>\<^verbatim>\<open>/\{[\s\S]*"testResults"[\s\S]*\}/\<close>\<close>

definition jsonReportRegex :: rx where
  "jsonReportRegex =
     Seq (Lit ''{'') (Seq (Star AnyChar)
       (Seq (Lit (CHR 0x22 # ''testResults'' @ [CHR 0x22])) (Seq (Star AnyChar) (Lit ''}''))))"

definition exitCodeResult :: "int option \<Rightarrow> string \<Rightarrow> TestResult" where
  "exitCodeResult code out =
     \<lparr>TestResult.passed = (code = Some 0),
      TestResult.testsPassed = (if code = Some 0 then 1 else 0),
      TestResult.testsTotal = 1,
      testOutput = out\<rparr>"

definition onClose :: "check_env \<Rightarrow> int option \<Rightarrow> string \<Rightarrow> string \<Rightarrow> TestResult" where
  "onClose env code out err =
     (case rx_search jsonReportRegex out of
        None \<Rightarrow> exitCodeResult code (out @ err)
      | Some (jsonMatch, c, rest) \<Rightarrow>
          (case jsonParse env jsonMatch of
             None \<Rightarrow> exitCodeResult code (out @ err)
           | Some result \<Rightarrow>
               \<lparr>TestResult.passed =
                  (case reportSuccess result of Some b \<Rightarrow> b | None \<Rightarrow> code = Some 0),
                TestResult.testsPassed =
                  (case numPassedTests result of Some n \<Rightarrow> n | None \<Rightarrow> 0),
                TestResult.testsTotal =
                  (case numTotalTests result of Some n \<Rightarrow> n | None \<Rightarrow> 0),
                testOutput = out @ err\<rparr>))"

definition runEvalTests :: "check_env \<Rightarrow> string \<Rightarrow> string \<Rightarrow> TestResult eff" where
  "runEvalTests env workspaceDir evalFileName =
     (case vitest env of
        CopyFailed msg \<Rightarrow>
          ([], Returns \<lparr>TestResult.passed = False, TestResult.testsPassed = 0,
                        TestResult.testsTotal = 1,
                        testOutput = ''Failed to copy eval file: '' @ msg\<rparr>)
      | SpawnError msg \<Rightarrow>
          ([Spawn ''npx''],
           Returns \<lparr>TestResult.passed = False, TestResult.testsPassed = 0,
                    TestResult.testsTotal = 1, testOutput = msg\<rparr>)
      | Closed code out err \<Rightarrow> ([Spawn ''npx''], Returns (onClose env code out err)))"

text \<open>A string that may be null is truthy when it is there and not empty.\<close>

definition truthy :: "string option \<Rightarrow> bool" where
  "truthy s = (case s of None \<Rightarrow> False | Some x \<Rightarrow> x \<noteq> [])"

section \<open>The Direct-Call Strategy\<close>

text \<open>skill-loader.ts: the prompt sent to the model when a skill is configured.\<close>

definition formatSkillAsPrompt :: "SkillDefinition \<Rightarrow> string" where
  "formatSkillAsPrompt sk =
     trim (NL # ''## Skill: '' @ SkillDefinition.name sk @ [NL, NL] @
       (if SkillDefinition.description sk \<noteq> []
        then ''**Description:** '' @ SkillDefinition.description sk @ [NL] else []) @
       [NL] @ content sk @ [NL])"

definition augmentPromptWithSkill :: "string \<Rightarrow> SkillDefinition \<Rightarrow> string" where
  "augmentPromptWithSkill basePrompt sk =
     formatSkillAsPrompt sk @ [NL, NL] @ ''---'' @ [NL, NL] @ ''# Task'' @ [NL, NL] @ basePrompt"

record ClaudeAPIResult =
  responseText :: string
  responseUsage :: Usage

text \<open>
  The world of one direct-call trial: what \<^verbatim>\<open>copyStarterFiles\<close> does, what the model
  answers to a request (model, prompt, timeout), whether writing a file fails, and the
  time the trial took.
\<close>

record sdk_env =
  sdkStarterFiles :: "string list outcome"
  claude :: "string \<Rightarrow> string \<Rightarrow> nat \<Rightarrow> ClaudeAPIResult outcome"
  writeError :: "string \<Rightarrow> string option"
  sdkElapsed :: nat

fun writeGeneratedFiles :: "(string \<Rightarrow> string option) \<Rightarrow> file_map \<Rightarrow> string list outcome" where
  "writeGeneratedFiles w [] = Returns []"
| "writeGeneratedFiles w ((fname, text) # rest) =
     (case w fname of
        Some msg \<Rightarrow> Throws msg
      | None \<Rightarrow>
          (case writeGeneratedFiles w rest of
             Returns written \<Rightarrow> Returns (fname # written)
           | Throws msg \<Rightarrow> Throws msg
           | Hangs \<Rightarrow> Hangs))"

definition noFilesMessage :: string where
  "noFilesMessage = ''No files were generated by the agent''"

definition runSDKEval ::
  "sdk_env \<Rightarrow> check_env \<Rightarrow> EvalDefinition \<Rightarrow> ExperimentConfig \<Rightarrow> SkillDefinition option \<Rightarrow>
     string \<Rightarrow> int \<Rightarrow> (RunResult \<times> Usage) eff" where
  "runSDKEval env cenv evalDef cfg sk workspaceDir n =
     andThen (lift (sdkStarterFiles env)) (\<lambda>copied.
       let p = (case sk of None \<Rightarrow> prompt evalDef
                | Some s \<Rightarrow> augmentPromptWithSkill (prompt evalDef) s)
       in andThen (lift (claude env (model cfg) p (timeout cfg))) (\<lambda>api.
            let response = responseText api;
                u = responseUsage api;
                generated = parseGeneratedFiles response
            in andThen (lift (writeGeneratedFiles (writeError env) generated)) (\<lambda>writtenFiles.
                 if length writtenFiles = 0 then
                   pure (\<lparr>runNumber = n, passed = False, testsPassed = 0, testsTotal = 1,
                          durationMs = sdkElapsed env, error = Some noFilesMessage,
                          agentOutput = Some response, generatedFiles = Some [],
                          usage = Some u\<rparr>, u)
                 else
                   andThen (runEvalTests cenv workspaceDir (evalFile evalDef)) (\<lambda>testResult.
                     pure (\<lparr>runNumber = n, passed = TestResult.passed testResult,
                            testsPassed = TestResult.testsPassed testResult,
                            testsTotal = TestResult.testsTotal testResult,
                            durationMs = sdkElapsed env,
                            error = (if TestResult.passed testResult then None
                                     else Some (testOutput testResult)),
                            agentOutput = Some response,
                            generatedFiles = Some writtenFiles,
                            usage = Some u\<rparr>, u)))))"

section \<open>The Agent-Session Strategy\<close>

text \<open>The token counts in the agent's JSON output, under either spelling.\<close>

record usage_json =
  input_tokens :: "nat option"
  inputTokensAlt :: "nat option"
  output_tokens :: "nat option"
  outputTokensAlt :: "nat option"

record agent_json =
  usageField :: "usage_json option"
  statsField :: "usage_json option"

definition usageOf :: "usage_json \<Rightarrow> Usage" where
  "usageOf u =
     \<lparr>inputTokens =
        (case input_tokens u of Some n \<Rightarrow> n
         | None \<Rightarrow> (case inputTokensAlt u of Some n \<Rightarrow> n | None \<Rightarrow> 0)),
      outputTokens =
        (case output_tokens u of Some n \<Rightarrow> n
         | None \<Rightarrow> (case outputTokensAlt u of Some n \<Rightarrow> n | None \<Rightarrow> 0))\<rparr>"

text \<open>The \<^verbatim>\<open>try { JSON.parse(stdout) ... } catch { }\<close> of the close handler; \<open>None\<close>
  as argument: \<^verbatim>\<open>JSON.parse\<close> throws.\<close>

definition parseUsage :: "agent_json option \<Rightarrow> Usage option" where
  "parseUsage j =
     (case j of
        None \<Rightarrow> None
      | Some jsonOutput \<Rightarrow>
          (case usageField jsonOutput of
             Some u \<Rightarrow> Some (usageOf u)
           | None \<Rightarrow>
               (case statsField jsonOutput of
                  Some s \<Rightarrow> Some (usageOf s)
                | None \<Rightarrow> None)))"

text \<open>
  The spawned agent: whether the spawn fails; when the process exits by itself (ms after
  the spawn; \<open>None\<close>: never) and with which code; what it does when SIGTERM reaches it
  (\<open>None\<close>: it ignores the signal; \<open>Some (d, code)\<close>: it ends \<open>d\<close> ms later, and the close
  event reports \<open>code\<close>, \<^verbatim>\<open>null\<close> when the signal ended it); what it wrote, and what
  \<^verbatim>\<open>JSON.parse\<close> makes of its stdout. SIGKILL cannot be ignored.
\<close>

record agent_proc =
  spawnError :: "string option"
  exitsAfter :: "nat option"
  exitStatus :: int
  onSigterm :: "(nat \<times> int option) option"
  procStdout :: string
  procStderr :: string
  stdoutJson :: "agent_json option"

text \<open>
  Node's \<^verbatim>\<open>ChildProcess\<close>: \<^verbatim>\<open>kill(signal)\<close> delivers the signal when the process is
  still there, and then sets \<^verbatim>\<open>killed\<close> and returns true. \<^verbatim>\<open>killed\<close> says that a
  signal was sent, not that the process has ended.
\<close>

record ChildProcess =
  killed :: bool

definition kill :: "bool \<Rightarrow> ChildProcess \<Rightarrow> bool \<times> ChildProcess" where
  "kill alive p = (if alive then (True, p\<lparr>killed := True\<rparr>) else (False, p))"

text \<open>The earlier of two possible ends of the process (time, close code).\<close>

definition earlier ::
  "(nat \<times> int option) option \<Rightarrow> (nat \<times> int option) option \<Rightarrow> (nat \<times> int option) option" where
  "earlier a b =
     (case a of
        None \<Rightarrow> b
      | Some (ta, ca) \<Rightarrow>
          (case b of
             None \<Rightarrow> a
           | Some (tb, cb) \<Rightarrow> if ta \<le> tb then a else b))"

definition executeAgent ::
  "agent_proc \<Rightarrow> ExperimentConfig \<Rightarrow> string \<Rightarrow> nat \<Rightarrow> AgentExecutionResult eff" where
  "executeAgent pr cfg workspaceDir tmo =
     (case agent cfg of
        None \<Rightarrow>
          pure \<lparr>exitCode = 1, stdout = [], stderr = ''Agent configuration is missing'',
                success = False, usage = None\<rparr>
      | Some agentConfig \<Rightarrow>
          (case spawnError pr of
             Some msg \<Rightarrow>
               ([Spawn (command agentConfig)],
                Returns \<lparr>exitCode = 1, stdout = [], stderr = [] @ [NL] @ msg,
                         success = False, usage = None\<rparr>)
           | None \<Rightarrow>
               let limit = tmo * 1000;
                   u = parseUsage (stdoutJson pr)
               in if (case exitsAfter pr of Some e \<Rightarrow> e < limit | None \<Rightarrow> False) then
                    \<comment> \<open>the process closes before the timer: \<open>timedOut\<close> is false\<close>
                    ([Spawn (command agentConfig)],
                     Returns \<lparr>exitCode = exitStatus pr, stdout = procStdout pr,
                              stderr = procStderr pr, success = (exitStatus pr = 0),
                              usage = u\<rparr>)
                  else
                    \<comment> \<open>the timer fires at \<open>limit\<close>: \<open>timedOut = true; agent.kill(SIGTERM)\<close>\<close>
                    let (sent1, p1) = kill True \<lparr>killed = False\<rparr>;
                        end1 = earlier
                          (case exitsAfter pr of None \<Rightarrow> None
                           | Some e \<Rightarrow> Some (e, Some (exitStatus pr)))
                          (if sent1 then
                             (case onSigterm pr of None \<Rightarrow> None
                              | Some (d, code) \<Rightarrow> Some (limit + d, code))
                           else None);
                        \<comment> \<open>the inner timer fires at \<open>limit + 5000\<close>:
                            \<open>if (!agent.killed) agent.kill(SIGKILL)\<close>\<close>
                        alive2 = (case end1 of None \<Rightarrow> True | Some (e, code) \<Rightarrow> limit + 5000 < e);
                        (sent2, p2) = (if \<not> killed p1 then kill alive2 p1 else (False, p1));
                        end2 = (if sent2 then Some (limit + 5000, None) else end1)
                    in (Spawn (command agentConfig) #
                          (if sent1 then [Kill SIGTERM limit] else []) @
                          (if sent2 then [Kill SIGKILL (limit + 5000)] else []),
                        case end2 of
                          None \<Rightarrow> Hangs
                        | Some (e, code) \<Rightarrow>
                            Returns \<lparr>exitCode = (case code of Some c \<Rightarrow> c | None \<Rightarrow> 1),
                                     stdout = procStdout pr,
                                     stderr = procStderr pr @ [NL] @ ''[Agent timed out]'',
                                     success = False, usage = u\<rparr>)))"

text \<open>
  The world of one agent trial: the file operations before the spawn, the process, the
  files \<^verbatim>\<open>glob\<close> finds afterwards, and the time the trial took.
\<close>

record agent_env =
  agentStarterFiles :: "string list outcome"
  skillFileExists :: bool
  copySkillError :: "string option"
  writePromptError :: "string option"
  proc :: agent_proc
  workspaceGlob :: "string list outcome"
  agentElapsed :: nat

definition listGeneratedFiles :: "string list outcome \<Rightarrow> string list eff" where
  "listGeneratedFiles globbed =
     andThen (lift globbed) (\<lambda>allFiles.
       pure (filter (\<lambda>f. f \<noteq> ''PROMPT.md'' \<and> f \<noteq> ''SKILL.md'') allFiles))"

definition runAgentEval ::
  "agent_env \<Rightarrow> EvalDefinition \<Rightarrow> ExperimentConfig \<Rightarrow> string \<Rightarrow> int \<Rightarrow> RunResult eff" where
  "runAgentEval env evalDef cfg workspaceDir n =
     tryCatch
       (andThen (lift (agentStarterFiles env)) (\<lambda>copied.
        andThen (if truthy (skill cfg) \<and> skillFileExists env
                 then failing (copySkillError env) else pure ()) (\<lambda>u1.
        andThen (failing (writePromptError env)) (\<lambda>u2.
        andThen (executeAgent (proc env) cfg workspaceDir (timeout cfg)) (\<lambda>agentResult.
        andThen (listGeneratedFiles (workspaceGlob env)) (\<lambda>found.
          pure \<lparr>runNumber = n, passed = False, testsPassed = 0, testsTotal = 0,
                durationMs = agentElapsed env,
                error = (if success agentResult then None
                         else Some (''Agent exited with code '' @
                                    show_int (exitCode agentResult))),
                agentOutput = Some (stdout agentResult @
                  (if stderr agentResult \<noteq> []
                   then [NL, NL] @ ''STDERR:'' @ [NL] @ stderr agentResult else [])),
                generatedFiles = Some found,
                usage = AgentExecutionResult.usage agentResult\<rparr>))))))
       (\<lambda>msg.
          pure \<lparr>runNumber = n, passed = False, testsPassed = 0, testsTotal = 0,
                durationMs = agentElapsed env, error = Some msg, agentOutput = None,
                generatedFiles = Some [], usage = None\<rparr>)"

section \<open>The Trial Orchestrator\<close>

datatype Anthropic = Anthropic

text \<open>
  The world of trial \<open>i\<close>: the clock when the workspace is named, whether \<^verbatim>\<open>mkdir\<close>
  fails, the worlds of the two strategies and of the check runner, and whether the
  progress callback throws (in the \<^verbatim>\<open>try\<close> block, in the \<^verbatim>\<open>catch\<close> block).
\<close>

record trial_env =
  now :: nat
  mkdirError :: "string option"
  agentEnv :: agent_env
  sdkEnv :: sdk_env
  checkEnv :: check_env
  progressError :: "string option"
  progressErrorInCatch :: "string option"

definition runId :: "EvalDefinition \<Rightarrow> ExperimentConfig \<Rightarrow> int \<Rightarrow> nat \<Rightarrow> string" where
  "runId evalDef cfg i t =
     EvalDefinition.name evalDef @ ''-'' @ ExperimentConfig.name cfg @ ''-run'' @ show_int i @
       ''-'' @ show_nat t"

definition createWorkspace :: "string option \<Rightarrow> string \<Rightarrow> string \<Rightarrow> string eff" where
  "createWorkspace mkdirErr baseDir rid =
     (let workspaceDir = pathJoin [baseDir, ''.workspaces'', rid]
      in case mkdirErr of
           Some msg \<Rightarrow> ([], Throws msg)
         | None \<Rightarrow> ([Mkdir workspaceDir], Returns workspaceDir))"

text \<open>\<^verbatim>\<open>cleanupWorkspace\<close> swallows every error.\<close>

definition cleanupWorkspace :: "string \<Rightarrow> unit eff" where
  "cleanupWorkspace workspaceDir = ([Rm workspaceDir], Returns ())"

definition isAgentMode :: "ExperimentConfig \<Rightarrow> bool" where
  "isAgentMode cfg = (executionMode cfg = Some Agent)"

definition debugOn :: "RunnerOptions option \<Rightarrow> bool" where
  "debugOn opts =
     (case opts of None \<Rightarrow> False
      | Some ro \<Rightarrow> (case debug ro of None \<Rightarrow> False | Some b \<Rightarrow> b))"

definition addUsage :: "Usage \<Rightarrow> Usage \<Rightarrow> Usage" where
  "addUsage tu u =
     \<lparr>inputTokens = inputTokens tu + inputTokens u,
      outputTokens = outputTokens tu + outputTokens u\<rparr>"

text \<open>
  The \<^verbatim>\<open>try\<close> block of \<^verbatim>\<open>runEval\<close> up to the result of the trial and the usage to add
  to the total.
\<close>

definition runTrial ::
  "Anthropic option \<Rightarrow> EvalDefinition \<Rightarrow> ExperimentConfig \<Rightarrow> SkillDefinition option \<Rightarrow>
     trial_env \<Rightarrow> string \<Rightarrow> int \<Rightarrow> (RunResult \<times> Usage option) eff" where
  "runTrial client evalDef cfg sk env workspaceDir i =
     (if isAgentMode cfg then
        andThen (runAgentEval (agentEnv env) evalDef cfg workspaceDir i) (\<lambda>agentResult.
          andThen
            (if (case generatedFiles agentResult of None \<Rightarrow> False | Some fs \<Rightarrow> length fs > 0)
             then
               andThen (runEvalTests (checkEnv env) workspaceDir (evalFile evalDef))
                 (\<lambda>testResult.
                    pure (agentResult
                      \<lparr>passed := TestResult.passed testResult,
                       testsPassed := TestResult.testsPassed testResult,
                       testsTotal := TestResult.testsTotal testResult,
                       error := (if TestResult.passed testResult then error agentResult
                                 else Some (testOutput testResult))\<rparr>))
             else
               pure (agentResult
                 \<lparr>error := (case error agentResult of Some e \<Rightarrow> Some e
                             | None \<Rightarrow> Some noFilesMessage)\<rparr>))
            (\<lambda>result. pure (result, usage agentResult)))
      else
        (case client of
           None \<Rightarrow> raise ''Anthropic client is required for SDK mode''
         | Some cl \<Rightarrow>
             andThen (runSDKEval (sdkEnv env) (checkEnv env) evalDef cfg sk workspaceDir i)
               (\<lambda>(sdkResult, u). pure (sdkResult, Some u))))"

text \<open>The result the \<^verbatim>\<open>catch\<close> block records.\<close>

definition failedRun :: "int \<Rightarrow> string \<Rightarrow> RunResult" where
  "failedRun i msg =
     \<lparr>runNumber = i, passed = False, testsPassed = 0, testsTotal = 1, durationMs = 0,
      error = Some msg, agentOutput = None, generatedFiles = None, usage = None\<rparr>"

text \<open>
  The state of the loop is the list \<open>runs\<close> and the running \<open>totalUsage\<close>. The \<^verbatim>\<open>catch\<close>
  block pushes the failed result and calls the progress callback, whose exception
  leaves \<^verbatim>\<open>runEval\<close>.
\<close>

type_synonym loop_state = "RunResult list \<times> Usage"

definition catchBlock :: "trial_env \<Rightarrow> int \<Rightarrow> loop_state \<Rightarrow> string \<Rightarrow> loop_state eff" where
  "catchBlock env i st msg =
     (case st of (rs, tu) \<Rightarrow>
        (case progressErrorInCatch env of
           None \<Rightarrow> pure (rs @ [failedRun i msg], tu)
         | Some e \<Rightarrow> raise e))"

text \<open>\<^verbatim>\<open>try { m } finally { fin }\<close>, for a \<open>fin\<close> that ends.\<close>

definition tryFinally :: "'a eff \<Rightarrow> unit eff \<Rightarrow> 'a eff" where
  "tryFinally m fin =
     (case m of
        (ev, Hangs) \<Rightarrow> (ev, Hangs)
      | (ev, r) \<Rightarrow>
          (case fin of
             (ev', Returns u) \<Rightarrow> (ev @ ev', r)
           | (ev', Throws msg) \<Rightarrow> (ev @ ev', Throws msg)
           | (ev', Hangs) \<Rightarrow> (ev @ ev', Hangs)))"

text \<open>
  One pass of the \<^verbatim>\<open>for\<close> loop. The workspace is made outside the \<^verbatim>\<open>try\<close>. In the
  \<^verbatim>\<open>try\<close> block the usage is added and the result pushed before the progress callback
  is called, so an exception of the callback finds both done.
\<close>

definition runEvalIteration ::
  "Anthropic option \<Rightarrow> EvalDefinition \<Rightarrow> ExperimentConfig \<Rightarrow> SkillDefinition option \<Rightarrow>
     string \<Rightarrow> trial_env \<Rightarrow> RunnerOptions option \<Rightarrow> int \<Rightarrow> loop_state \<Rightarrow> loop_state eff" where
  "runEvalIteration client evalDef cfg sk baseDir env opts i st =
     andThen (createWorkspace (mkdirError env) baseDir (runId evalDef cfg i (now env)))
       (\<lambda>workspaceDir.
          tryFinally
            (case runTrial client evalDef cfg sk env workspaceDir i of
               (ev, Hangs) \<Rightarrow> (ev, Hangs)
             | (ev, Throws msg) \<Rightarrow> andThen (ev, Returns ()) (\<lambda>u. catchBlock env i st msg)
             | (ev, Returns (result, u)) \<Rightarrow>
                 (let st1 = (case st of (rs, tu) \<Rightarrow>
                        (rs @ [result], (case u of None \<Rightarrow> tu | Some x \<Rightarrow> addUsage tu x)))
                  in case progressError env of
                       None \<Rightarrow> (ev, Returns st1)
                     | Some msg \<Rightarrow> andThen (ev, Returns ()) (\<lambda>u. catchBlock env i st1 msg)))
            (if \<not> debugOn opts then cleanupWorkspace workspaceDir else pure ()))"

text \<open>\<^verbatim>\<open>for (let i = ...; i <= n; i++) body\<close>\<close>

function runEvalLoop ::
  "(int \<Rightarrow> loop_state \<Rightarrow> loop_state eff) \<Rightarrow> int \<Rightarrow> int \<Rightarrow> loop_state \<Rightarrow> loop_state eff" where
  "runEvalLoop body n i st =
     (if i \<le> n then andThen (body i st) (\<lambda>st'. runEvalLoop body n (i + 1) st') else pure st)"
  by pat_completeness auto
termination
  by (relation "measure (\<lambda>(body, n, i, st). nat (n + 1 - i))") auto

definition runEval ::
  "Anthropic option \<Rightarrow> EvalDefinition \<Rightarrow> ExperimentConfig \<Rightarrow> SkillDefinition option \<Rightarrow>
     string \<Rightarrow> (int \<Rightarrow> trial_env) \<Rightarrow> RunnerOptions option \<Rightarrow> EvalResult eff" where
  "runEval client evalDef cfg sk baseDir envs opts =
     andThen
       (runEvalLoop (\<lambda>i. runEvalIteration client evalDef cfg sk baseDir (envs i) opts i)
          (ExperimentConfig.runs cfg) 1 ([], \<lparr>inputTokens = 0, outputTokens = 0\<rparr>))
       (\<lambda>(rs, tu).
          let passedCount = length (filter passed rs);
              avg = js_div (of_nat (foldl (\<lambda>sum r. sum + durationMs r) 0 rs))
                      (of_nat (length rs));
              hasUsage = (inputTokens tu > 0 \<or> outputTokens tu > 0)
          in pure \<lparr>EvalResult.evalName = EvalDefinition.name evalDef,
                   totalRuns = ExperimentConfig.runs cfg,
                   passedRuns = passedCount,
                   passRate = js_div (of_nat passedCount) (of_int (ExperimentConfig.runs cfg)),
                   runs = rs,
                   avgDurationMs = avg,
                   EvalResult.totalUsage = (if hasUsage then Some tu else None)\<rparr>)"

section \<open>The Experiment Orchestrator\<close>

text \<open>
  The world of an experiment: what \<^verbatim>\<open>loadSkill\<close> does, the tasks that
  \<^verbatim>\<open>discoverEvals\<close> and \<^verbatim>\<open>filterEvals\<close> select from the file system, the world of
  each trial of each task, and the clock.
\<close>

record experiment_env =
  loadSkillResult :: "SkillDefinition outcome"
  selectedEvals :: "EvalDefinition list"
  trialEnvs :: "string \<Rightarrow> int \<Rightarrow> trial_env"
  startClock :: string
  endClock :: string
  elapsedMs :: nat

fun runEvals ::
  "(EvalDefinition \<Rightarrow> EvalResult eff) \<Rightarrow> EvalDefinition list \<Rightarrow> EvalResult list \<Rightarrow>
     EvalResult list eff" where
  "runEvals f [] acc = pure acc"
| "runEvals f (evalDef # rest) acc =
     andThen (f evalDef) (\<lambda>result. runEvals f rest (acc @ [result]))"

definition overallPassRateOf :: "EvalResult list \<Rightarrow> jsnum" where
  "overallPassRateOf results =
     (let totalRunCount = foldl (\<lambda>sum r. sum + totalRuns r) 0 results;
          totalPassed = foldl (\<lambda>sum r. sum + passedRuns r) 0 results
      in if totalRunCount > 0 then js_div (of_nat totalPassed) (of_int totalRunCount)
         else Num 0)"

definition aggregatedUsageOf :: "EvalResult list \<Rightarrow> Usage option" where
  "aggregatedUsageOf results =
     (let aggregatedUsage =
        \<lparr>inputTokens =
           foldl (\<lambda>sum r. sum + (case EvalResult.totalUsage r of None \<Rightarrow> 0
                                  | Some u \<Rightarrow> inputTokens u)) 0 results,
         outputTokens =
           foldl (\<lambda>sum r. sum + (case EvalResult.totalUsage r of None \<Rightarrow> 0
                                  | Some u \<Rightarrow> outputTokens u)) 0 results\<rparr>
      in if inputTokens aggregatedUsage > 0 \<or> outputTokens aggregatedUsage > 0
         then Some aggregatedUsage else None)"

definition runExperiment ::
  "ExperimentConfig \<Rightarrow> string \<Rightarrow> string \<Rightarrow> experiment_env \<Rightarrow> RunnerOptions option \<Rightarrow>
     ExperimentResult eff" where
  "runExperiment cfg evalsDir baseDir env opts =
     (let client = (if \<not> isAgentMode cfg then Some Anthropic else None)
      in if isAgentMode cfg \<and> agent cfg = None then
           raise (''Agent configuration is required when executionMode is '' @
                  [CHR 0x27] @ ''agent'' @ [CHR 0x27])
         else
           andThen (if truthy (skill cfg)
                    then andThen (lift (loadSkillResult env)) (\<lambda>s. pure (Some s))
                    else pure None) (\<lambda>sk.
             let evalList = selectedEvals env
             in if length evalList = 0 then
                  raise ''No evals found matching the specified patterns''
                else
                  andThen
                    (runEvals
                       (\<lambda>evalDef. runEval client evalDef cfg sk baseDir
                          (trialEnvs env (EvalDefinition.name evalDef)) opts)
                       evalList [])
                    (\<lambda>results.
                       pure \<lparr>experimentName = ExperimentConfig.name cfg,
                             config = cfg,
                             startedAt = startClock env,
                             completedAt = endClock env,
                             totalDurationMs = elapsedMs env,
                             evalResults = results,
                             overallPassRate = overallPassRateOf results,
                             ExperimentResult.totalUsage = aggregatedUsageOf results\<rparr>)))"

section \<open>The Comparator\<close>

text \<open>\<^verbatim>\<open>new Map(results.map((r) => [r.evalName, r]))\<close>: a later entry of the same name
  replaces an earlier one.\<close>

definition baselineByName :: "EvalResult list \<Rightarrow> (string \<rightharpoonup> EvalResult)" where
  "baselineByName results = foldl (\<lambda>m r. m(EvalResult.evalName r \<mapsto> r)) Map.empty results"

text \<open>The entry pushed for a task that both results have.\<close>

definition comparisonEntry :: "EvalResult \<Rightarrow> EvalResult \<Rightarrow> EvalComparison" where
  "comparisonEntry baselineResult withSkillResult =
     \<lparr>EvalComparison.evalName = EvalResult.evalName withSkillResult,
      baselinePassRate = passRate baselineResult,
      withSkillPassRate = passRate withSkillResult,
      improvement = js_sub (passRate withSkillResult) (passRate baselineResult),
      baselineRuns = totalRuns baselineResult,
      withSkillRuns = totalRuns withSkillResult\<rparr>"

definition compareExperiments :: "ExperimentResult \<Rightarrow> ExperimentResult \<Rightarrow> ComparisonResult" where
  "compareExperiments b w =
     (let byName = baselineByName (evalResults b);
          comparisons =
            foldl (\<lambda>acc withSkillResult.
                     case byName (EvalResult.evalName withSkillResult) of
                       None \<Rightarrow> acc
                     | Some baselineResult \<Rightarrow>
                         acc @ [comparisonEntry baselineResult withSkillResult])
              [] (evalResults w)
      in \<lparr>baseline = b, withSkill = w, evalComparisons = comparisons,
          overallImprovement = js_sub (overallPassRate w) (overallPassRate b)\<rparr>)"

section \<open>Example data\<close>

definition exampleConfig :: ExperimentConfig where
  "exampleConfig =
     \<lparr>ExperimentConfig.name = ''baseline'',
      ExperimentConfig.description = ''Baseline experiment without skill augmentation'',
      model = ''claude-sonnet-4-20250514'', ExperimentConfig.runs = 3, timeout = 120,
      skill = None, evals = [''*''], executionMode = None, agent = None\<rparr>"

definition taskResult :: "string \<Rightarrow> nat \<Rightarrow> int \<Rightarrow> EvalResult" where
  "taskResult task p n =
     \<lparr>EvalResult.evalName = task, totalRuns = n, passedRuns = p,
      passRate = js_div (of_nat p) (of_int n), runs = [], avgDurationMs = NaN,
      EvalResult.totalUsage = None\<rparr>"

definition experimentOf :: "string \<Rightarrow> EvalResult list \<Rightarrow> ExperimentResult" where
  "experimentOf label results =
     \<lparr>experimentName = label, config = exampleConfig, startedAt = [], completedAt = [],
      totalDurationMs = 0, evalResults = results,
      overallPassRate = overallPassRateOf results,
      ExperimentResult.totalUsage = aggregatedUsageOf results\<rparr>"


text \<open>Vocabulary of the theorems: the workspace of a trial, and sums of token counts.\<close>

definition workspaceFor :: "string \<Rightarrow> EvalDefinition \<Rightarrow> ExperimentConfig \<Rightarrow> trial_env \<Rightarrow> int \<Rightarrow> string" where
  "workspaceFor baseDir evalDef cfg env i =
     pathJoin [baseDir, ''.workspaces'', runId evalDef cfg i (now env)]"

definition usageSum :: "RunResult list \<Rightarrow> Usage" where
  "usageSum rs =
     \<lparr>inputTokens = (\<Sum>r\<leftarrow>rs. case usage r of None \<Rightarrow> 0 | Some u \<Rightarrow> inputTokens u),
      outputTokens = (\<Sum>r\<leftarrow>rs. case usage r of None \<Rightarrow> 0 | Some u \<Rightarrow> outputTokens u)\<rparr>"

definition taskUsageSum :: "EvalResult list \<Rightarrow> Usage" where
  "taskUsageSum results =
     \<lparr>inputTokens = (\<Sum>r\<leftarrow>results. case EvalResult.totalUsage r of None \<Rightarrow> 0
                                          | Some u \<Rightarrow> inputTokens u),
      outputTokens = (\<Sum>r\<leftarrow>results. case EvalResult.totalUsage r of None \<Rightarrow> 0
                                           | Some u \<Rightarrow> outputTokens u)\<rparr>"

text \<open>Reading decimal notation back, and the path segments that normalization keeps.\<close>

definition read_nat :: "string \<Rightarrow> nat" where
  "read_nat s = foldl (\<lambda>a c. 10 * a + (of_char c - 48)) 0 s"

definition plainSegment :: "string \<Rightarrow> bool" where
  "plainSegment seg = (seg \<noteq> [] \<and> seg \<noteq> ''.'' \<and> seg \<noteq> ''..'')"

text \<open>
  An example world: a task, a response with one file, a check run that passes with a
  report, and an experiment in direct-call mode whose second trial fails in the request to
  the model.
\<close>

definition exampleTask :: EvalDefinition where
  "exampleTask =
     \<lparr>EvalDefinition.name = ''generate-add-function'', path = ''evals/generate-add-function'',
      prompt = ''Create math.ts with an add function.'',
      evalFile = ''evals/generate-add-function/EVAL.ts''\<rparr>"

definition goodResponse :: string where
  "goodResponse =
     join_nl [''```typescript'', ''// math.ts'',
              ''export function add(a: number, b: number) { return a + b; }'', ''```'']"

definition reportOutput :: string where
  "reportOutput = ''{'' @ [CHR 0x22] @ ''testResults'' @ [CHR 0x22] @ '':[]}''"

definition passingCheck :: check_env where
  "passingCheck =
     \<lparr>vitest = Closed (Some 0) reportOutput [],
      jsonParse = (\<lambda>s. Some \<lparr>reportSuccess = Some True, numPassedTests = Some 3,
                              numTotalTests = Some 3\<rparr>)\<rparr>"

definition sdkWorld :: "ClaudeAPIResult outcome \<Rightarrow> sdk_env" where
  "sdkWorld answer =
     \<lparr>sdkStarterFiles = Returns [], claude = (\<lambda>m p t. answer), writeError = (\<lambda>f. None),
      sdkElapsed = 1500\<rparr>"

definition agentWorld :: "agent_proc \<Rightarrow> string list \<Rightarrow> agent_env" where
  "agentWorld pr found =
     \<lparr>agentStarterFiles = Returns [], skillFileExists = False, copySkillError = None,
      writePromptError = None, proc = pr, workspaceGlob = Returns found,
      agentElapsed = 9000\<rparr>"

definition exitingAgent :: "nat \<Rightarrow> int \<Rightarrow> agent_proc" where
  "exitingAgent t code =
     \<lparr>spawnError = None, exitsAfter = Some t, exitStatus = code, onSigterm = Some (10, None),
      procStdout = ''done'', procStderr = [], stdoutJson = None\<rparr>"

definition trialWorld :: "sdk_env \<Rightarrow> agent_env \<Rightarrow> check_env \<Rightarrow> trial_env" where
  "trialWorld s a c =
     \<lparr>now = 1700, mkdirError = None, agentEnv = a, sdkEnv = s, checkEnv = c,
      progressError = None, progressErrorInCatch = None\<rparr>"

definition answerOk :: "ClaudeAPIResult outcome" where
  "answerOk = Returns \<lparr>responseText = goodResponse,
                        responseUsage = \<lparr>inputTokens = 100, outputTokens = 50\<rparr>\<rparr>"

definition secondTrialThrows :: "int \<Rightarrow> trial_env" where
  "secondTrialThrows i =
     trialWorld (sdkWorld (if i = 2 then Throws ''Request was aborted.'' else answerOk))
       (agentWorld (exitingAgent 5000 0) [''math.ts'']) passingCheck"

definition exampleExperiment :: experiment_env where
  "exampleExperiment =
     \<lparr>loadSkillResult = Throws ''Skill file not found'', selectedEvals = [exampleTask],
      trialEnvs = (\<lambda>task. secondTrialThrows), startClock = ''2026-01-01T00:00:00.000Z'',
      endClock = ''2026-01-01T00:00:05.000Z'', elapsedMs = 5000\<rparr>"

definition okRun :: "int \<Rightarrow> RunResult" where
  "okRun i =
     \<lparr>runNumber = i, passed = True, testsPassed = 3, testsTotal = 3, durationMs = 1500,
      error = None, agentOutput = Some goodResponse, generatedFiles = Some [''math.ts''],
      usage = Some \<lparr>inputTokens = 100, outputTokens = 50\<rparr>\<rparr>"

definition exampleEvalResult :: EvalResult where
  "exampleEvalResult =
     \<lparr>EvalResult.evalName = ''generate-add-function'', totalRuns = 3, passedRuns = 2,
      passRate = Num (2 / 3),
      runs = [okRun 1, failedRun 2 ''Request was aborted.'', okRun 3],
      avgDurationMs = Num 1000,
      EvalResult.totalUsage = Some \<lparr>inputTokens = 200, outputTokens = 100\<rparr>\<rparr>"


text \<open>Check runs without a usable report, and a response without a fenced block.\<close>

definition brokenReport :: check_env where
  "brokenReport = \<lparr>vitest = Closed (Some 1) reportOutput ''boom'', jsonParse = (\<lambda>s. None)\<rparr>"

definition noReport :: check_env where
  "noReport = \<lparr>vitest = Closed (Some 0) ''3 passed'' [], jsonParse = (\<lambda>s. None)\<rparr>"

definition refusal :: ClaudeAPIResult where
  "refusal = \<lparr>responseText = ''I can only describe the function in words.'',
               responseUsage = \<lparr>inputTokens = 40, outputTokens = 9\<rparr>\<rparr>"

text \<open>
  An agent-session configuration with a timeout of one second, an agent that never exits
  and ignores SIGTERM, and one that needs seven seconds to stop after SIGTERM.
\<close>

definition agentConfigExample :: ExperimentConfig where
  "agentConfigExample =
     exampleConfig\<lparr>timeout := 1, executionMode := Some Agent,
                    agent := Some \<lparr>command = ''claude'', args = Some [], earlyExit = Some False\<rparr>\<rparr>"

definition stubbornAgent :: agent_proc where
  "stubbornAgent =
     \<lparr>spawnError = None, exitsAfter = None, exitStatus = 0, onSigterm = None,
      procStdout = [], procStderr = [], stdoutJson = None\<rparr>"

definition slowToStop :: agent_proc where
  "slowToStop =
     \<lparr>spawnError = None, exitsAfter = None, exitStatus = 0, onSigterm = Some (7000, None),
      procStdout = [], procStderr = [], stdoutJson = None\<rparr>"


section \<open>Effects: basic facts\<close>

lemma andThen_ReturnsE:
  assumes "andThen m f = (ev, Returns b)"
  obtains e1 a e2 where "m = (e1, Returns a)" and "f a = (e2, Returns b)" and "ev = e1 @ e2"
  using assms
  by (cases m; cases "snd m") (auto simp: andThen_def split: prod.splits)

lemma pure_Returns [simp]: "pure a = (ev, Returns b) \<longleftrightarrow> ev = [] \<and> a = b"
  by (auto simp: pure_def)

lemma raise_Returns [simp]: "raise msg \<noteq> (ev, Returns b)"
  by (simp add: raise_def)

lemma returns_caseE:
  assumes "case snd m of Returns r \<Rightarrow> P r | Throws msg \<Rightarrow> False | Hangs \<Rightarrow> False"
  obtains ev r where "m = (ev, Returns r)" and "P r"
  using assms by (cases m; cases "snd m") auto

lemma foldl_plus:
  "foldl (\<lambda>sum r. sum + f r) a rs = a + sum_list (map f rs)"
  for a :: "'a :: comm_monoid_add"
  by (induction rs arbitrary: a) (simp_all add: add.assoc)

lemma foldl_plus0:
  "foldl (\<lambda>sum r. sum + f r) 0 rs = sum_list (map f rs)"
  for f :: "'b \<Rightarrow> 'a :: comm_monoid_add"
  by (simp add: foldl_plus)

section \<open>The Comparator pairs tasks by name\<close>

lemma foldl_map_upd_dom:
  "dom (foldl (\<lambda>m r. m(f r \<mapsto> r)) m0 rs) = dom m0 \<union> f ` set rs"
  by (induction rs arbitrary: m0) auto

lemma foldl_map_upd_Some:
  "foldl (\<lambda>m r. m(f r \<mapsto> r)) m0 rs k = Some v \<Longrightarrow> m0 k = Some v \<or> (v \<in> set rs \<and> f v = k)"
proof (induction rs arbitrary: m0)
  case Nil
  then show ?case by simp
next
  case (Cons r rs)
  from Cons.IH [of "m0(f r \<mapsto> r)"] Cons.prems show ?case
    by (auto split: if_splits)
qed

lemma baselineByName_dom: "dom (baselineByName rs) = EvalResult.evalName ` set rs"
  by (simp add: baselineByName_def foldl_map_upd_dom)

lemma baselineByName_Some:
  "baselineByName rs k = Some v \<Longrightarrow> v \<in> set rs \<and> EvalResult.evalName v = k"
  using foldl_map_upd_Some [of EvalResult.evalName Map.empty rs k v]
  by (simp add: baselineByName_def)

lemma comparisons_foldl:
  "foldl (\<lambda>acc withSkillResult.
            case byName (EvalResult.evalName withSkillResult) of
              None \<Rightarrow> acc
            | Some baselineResult \<Rightarrow> acc @ [comparisonEntry baselineResult withSkillResult])
     acc ws
   = acc @ concat (map (\<lambda>wr. case byName (EvalResult.evalName wr) of
                               None \<Rightarrow> [] | Some br \<Rightarrow> [comparisonEntry br wr]) ws)"
  by (induction ws arbitrary: acc) (auto split: option.splits)

lemma evalComparisons_eq:
  "evalComparisons (compareExperiments b w) =
     concat (map (\<lambda>wr. case baselineByName (evalResults b) (EvalResult.evalName wr) of
                          None \<Rightarrow> [] | Some br \<Rightarrow> [comparisonEntry br wr]) (evalResults w))"
  using comparisons_foldl [of "baselineByName (evalResults b)" "[]" "evalResults w"]
  by (simp add: compareExperiments_def Let_def)

lemma comparison_names:
  "map EvalComparison.evalName
     (concat (map (\<lambda>wr. case byName (EvalResult.evalName wr) of
                          None \<Rightarrow> [] | Some br \<Rightarrow> [comparisonEntry br wr]) ws))
   = filter (\<lambda>n. n \<in> dom byName) (map EvalResult.evalName ws)"
  by (induction ws) (auto simp: comparisonEntry_def split: option.splits)

text \<open>
  Claim C7. The Comparator pairs the tasks of two experiment results by name. The names
  of the comparison entries are the task names of the with-skill result that the
  baseline result has too, in order: a name that only one of the two results has gives
  no entry (and \<open>compareExperiments\<close> is a total function: no error). Each entry comes
  from a with-skill task and a baseline task of its name, its improvement is the
  with-skill pass rate minus the baseline pass rate, and the overall improvement is
  \<open>withSkill.overallPassRate - baseline.overallPassRate\<close>.
\<close>

theorem compareExperiments_by_name:
  "map EvalComparison.evalName (evalComparisons (compareExperiments b w)) =
     filter (\<lambda>n. n \<in> EvalResult.evalName ` set (evalResults b))
       (map EvalResult.evalName (evalResults w))
   \<and> (\<forall>e \<in> set (evalComparisons (compareExperiments b w)).
        improvement e = js_sub (withSkillPassRate e) (baselinePassRate e)
        \<and> (\<exists>wr \<in> set (evalResults w). \<exists>br \<in> set (evalResults b).
              EvalResult.evalName wr = EvalComparison.evalName e
              \<and> EvalResult.evalName br = EvalComparison.evalName e
              \<and> withSkillPassRate e = passRate wr \<and> baselinePassRate e = passRate br
              \<and> withSkillRuns e = totalRuns wr \<and> baselineRuns e = totalRuns br))
   \<and> overallImprovement (compareExperiments b w) =
       js_sub (overallPassRate w) (overallPassRate b)"
proof (intro conjI ballI)
  show "map EvalComparison.evalName (evalComparisons (compareExperiments b w)) =
     filter (\<lambda>n. n \<in> EvalResult.evalName ` set (evalResults b))
       (map EvalResult.evalName (evalResults w))"
    by (simp only: evalComparisons_eq comparison_names baselineByName_dom)
next
  fix e assume "e \<in> set (evalComparisons (compareExperiments b w))"
  then obtain wr where wr: "wr \<in> set (evalResults w)"
    and "e \<in> set (case baselineByName (evalResults b) (EvalResult.evalName wr) of
                      None \<Rightarrow> [] | Some br \<Rightarrow> [comparisonEntry br wr])"
    unfolding evalComparisons_eq by auto
  then obtain br
    where br: "baselineByName (evalResults b) (EvalResult.evalName wr) = Some br"
    and e: "e = comparisonEntry br wr"
    by (cases "baselineByName (evalResults b) (EvalResult.evalName wr)") auto
  from baselineByName_Some [OF br] have "br \<in> set (evalResults b)"
    and "EvalResult.evalName br = EvalResult.evalName wr" by auto
  with wr e show "improvement e = js_sub (withSkillPassRate e) (baselinePassRate e)"
    and "\<exists>wr \<in> set (evalResults w). \<exists>br \<in> set (evalResults b).
              EvalResult.evalName wr = EvalComparison.evalName e
              \<and> EvalResult.evalName br = EvalComparison.evalName e
              \<and> withSkillPassRate e = passRate wr \<and> baselinePassRate e = passRate br
              \<and> withSkillRuns e = totalRuns wr \<and> baselineRuns e = totalRuns br"
    by (auto simp: comparisonEntry_def)
next
  show "overallImprovement (compareExperiments b w) =
       js_sub (overallPassRate w) (overallPassRate b)"
    by (simp add: compareExperiments_def Let_def)
qed

text \<open>
  The example of the specification: task \<open>t\<close> passes 2 of 3 trials at baseline and 3 of 3
  with the skill; each result has one more task that the other has not.
\<close>

theorem compareExperiments_by_name_witness:
  "map EvalComparison.evalName
     (evalComparisons (compareExperiments
        (experimentOf ''baseline'' [taskResult ''t'' 2 3, taskResult ''old'' 1 1])
        (experimentOf ''with-skill'' [taskResult ''new'' 0 2, taskResult ''t'' 3 3]))) = [''t'']
   \<and> map improvement
     (evalComparisons (compareExperiments
        (experimentOf ''baseline'' [taskResult ''t'' 2 3, taskResult ''old'' 1 1])
        (experimentOf ''with-skill'' [taskResult ''new'' 0 2, taskResult ''t'' 3 3])))
       = [Num (1 / 3)]
   \<and> overallImprovement (compareExperiments
        (experimentOf ''baseline'' [taskResult ''t'' 2 3, taskResult ''old'' 1 1])
        (experimentOf ''with-skill'' [taskResult ''new'' 0 2, taskResult ''t'' 3 3]))
       = Num (3 / 5 - 3 / 4)"
  using compareExperiments_by_name
    [of "experimentOf ''baseline'' [taskResult ''t'' 2 3, taskResult ''old'' 1 1]"
        "experimentOf ''with-skill'' [taskResult ''new'' 0 2, taskResult ''t'' 3 3]"]
  by (simp add: evalComparisons_eq compareExperiments_def baselineByName_def experimentOf_def
      taskResult_def comparisonEntry_def overallPassRateOf_def js_div_def Let_def)

section \<open>The Trial Orchestrator counts every trial\<close>

lemma runEvalIteration_Returns:
  assumes "runEvalIteration client evalDef cfg sk baseDir env opts i (rs, tu) = (ev, Returns (rs', tu'))"
  shows "mkdirError env = None \<and>
     (case snd (runTrial client evalDef cfg sk env (workspaceFor baseDir evalDef cfg env i) i) of
        Returns (result, u) \<Rightarrow>
          tu' = (case u of None \<Rightarrow> tu | Some x \<Rightarrow> addUsage tu x) \<and>
          (case progressError env of
             None \<Rightarrow> rs' = rs @ [result]
           | Some msg \<Rightarrow> progressErrorInCatch env = None \<and> rs' = rs @ [result, failedRun i msg])
      | Throws msg \<Rightarrow> progressErrorInCatch env = None \<and> rs' = rs @ [failedRun i msg] \<and> tu' = tu
      | Hangs \<Rightarrow> False)"
  using assms
  by (auto simp: runEvalIteration_def createWorkspace_def andThen_def tryFinally_def
      catchBlock_def cleanupWorkspace_def pure_def raise_def Let_def workspaceFor_def
      split: option.splits outcome.splits prod.splits if_splits)


declare runEvalLoop.simps [simp del]

lemma runEvalLoop_invariant:
  assumes "runEvalLoop body n i st = (ev, Returns st')"
    and "\<And>j s e s'. i \<le> j \<Longrightarrow> j \<le> n \<Longrightarrow> I j s \<Longrightarrow> body j s = (e, Returns s') \<Longrightarrow> I (j + 1) s'"
    and "I i st"
  shows "I (if i \<le> n then n + 1 else i) st'"
  using assms
proof (induction body n i st arbitrary: ev rule: runEvalLoop.induct)
  case (1 body n i st)
  show ?case
  proof (cases "i \<le> n")
    case False
    with "1.prems"(1,3) show ?thesis
      by (simp add: runEvalLoop.simps [of body n i st] pure_def)
  next
    case True
    with "1.prems"(1) obtain e1 s1 e2 where b: "body i st = (e1, Returns s1)"
      and r: "runEvalLoop body n (i + 1) s1 = (e2, Returns st')"
      by (auto simp: runEvalLoop.simps [of body n i st] andThen_def
          split: prod.splits outcome.splits)
    from "1.prems"(2) [OF _ True "1.prems"(3) b] have I1: "I (i + 1) s1" by simp
    have "I (if i + 1 \<le> n then n + 1 else i + 1) st'"
    proof (rule "1.IH" [OF True r _ I1])
      fix j s e s'
      assume "i + 1 \<le> j" "j \<le> n" "I j s" "body j s = (e, Returns s')"
      then show "I (j + 1) s'" using "1.prems"(2) [of j s e s'] by simp
    qed
    then show ?thesis
    proof (cases "i + 1 \<le> n")
      case True
      with \<open>I (if i + 1 \<le> n then n + 1 else i + 1) st'\<close> \<open>i \<le> n\<close> show ?thesis by simp
    next
      case False
      with \<open>i \<le> n\<close> have "i = n" by simp
      with \<open>I (if i + 1 \<le> n then n + 1 else i + 1) st'\<close> show ?thesis by simp
    qed
  qed
qed


lemma runEval_Returns:
  assumes "runEval client evalDef cfg sk baseDir envs opts = (ev, Returns res)"
  shows "\<exists>tu. runEvalLoop (\<lambda>i. runEvalIteration client evalDef cfg sk baseDir (envs i) opts i)
            (ExperimentConfig.runs cfg) 1 ([], \<lparr>inputTokens = 0, outputTokens = 0\<rparr>)
          = (ev, Returns (runs res, tu))
     \<and> EvalResult.evalName res = EvalDefinition.name evalDef
     \<and> totalRuns res = ExperimentConfig.runs cfg
     \<and> passedRuns res = length (filter passed (runs res))
     \<and> passRate res = js_div (of_nat (passedRuns res)) (of_int (totalRuns res))
     \<and> EvalResult.totalUsage res =
         (if inputTokens tu > 0 \<or> outputTokens tu > 0 then Some tu else None)"
  using assms
  by (auto simp: runEval_def andThen_def pure_def Let_def split: prod.splits outcome.splits)

lemma failedRun_not_passed [simp]: "\<not> passed (failedRun i msg)"
  by (simp add: failedRun_def)




lemma runSDKEval_usage:
  assumes "runSDKEval env cenv evalDef cfg sk wd n = (ev, Returns (result, u))"
  shows "usage result = Some u"
  using assms unfolding runSDKEval_def Let_def
  by (elim andThen_ReturnsE) (auto split: if_splits elim!: andThen_ReturnsE)

lemma runTrial_usage:
  assumes "snd (runTrial client evalDef cfg sk env wd i) = Returns (result, u)"
  shows "usage result = u"
proof -
  obtain ev where r: "runTrial client evalDef cfg sk env wd i = (ev, Returns (result, u))"
    using assms by (cases "runTrial client evalDef cfg sk env wd i") simp
  show ?thesis
  proof (cases "isAgentMode cfg")
    case True
    with r show ?thesis unfolding runTrial_def
      by (auto split: if_splits elim!: andThen_ReturnsE)
  next
    case False
    with r show ?thesis unfolding runTrial_def
      by (auto split: option.splits prod.splits elim!: andThen_ReturnsE dest: runSDKEval_usage)
  qed
qed

lemma usageSum_snoc:
  "usageSum (rs @ [r]) =
     (case usage r of None \<Rightarrow> usageSum rs | Some u \<Rightarrow> addUsage (usageSum rs) u)"
  by (simp add: usageSum_def addUsage_def split: option.splits)

lemma usageSum_failedRun [simp]: "usageSum (rs @ [failedRun i msg]) = usageSum rs"
  by (simp add: usageSum_snoc failedRun_def)

lemma iteration_usage:
  assumes "runEvalIteration client evalDef cfg sk baseDir env opts i (rs, tu) = (ev, Returns (rs', tu'))"
    and "tu = usageSum rs"
  shows "tu' = usageSum rs'"
proof -
  let ?t = "snd (runTrial client evalDef cfg sk env (workspaceFor baseDir evalDef cfg env i) i)"
  note c = runEvalIteration_Returns [OF assms(1)]
  show ?thesis
  proof (cases ?t)
    case (Returns p)
    obtain result u where p: "p = (result, u)" by (cases p)
    from runTrial_usage [of client evalDef cfg sk env _ i result u] Returns p
    have u: "usage result = u" by simp
    have "usageSum (rs @ [result]) = tu'"
      using c Returns p u assms(2) by (simp add: usageSum_snoc split: option.splits)
    moreover have "usageSum (rs @ [result, failedRun i m]) = usageSum (rs @ [result])" for m
      using usageSum_failedRun [of "rs @ [result]" i m] by simp
    ultimately show ?thesis using c Returns p by (auto split: option.splits)
  next
    case (Throws msg)
    with c assms(2) show ?thesis by simp
  next
    case Hangs
    with c show ?thesis by simp
  qed
qed

lemma runExperiment_Returns:
  assumes "runExperiment cfg evalsDir baseDir env opts = (ev, Returns ex)"
  shows "overallPassRate ex = overallPassRateOf (evalResults ex)
       \<and> ExperimentResult.totalUsage ex = aggregatedUsageOf (evalResults ex)
       \<and> config ex = cfg"
  using assms unfolding runExperiment_def Let_def
  by (auto split: if_splits elim!: andThen_ReturnsE)

subsection \<open>The example world, evaluated\<close>

lemma parse_goodResponse:
  "parseGeneratedFiles goodResponse =
     [(''math.ts'', ''export function add(a: number, b: number) { return a + b; }'')]"
  by code_simp

lemma check_passingCheck:
  "runEvalTests passingCheck wd f =
     ([Spawn ''npx''],
      Returns \<lparr>TestResult.passed = True, TestResult.testsPassed = 3,
               TestResult.testsTotal = 3, testOutput = reportOutput\<rparr>)"
proof -
  have "rx_search jsonReportRegex reportOutput = Some (reportOutput, [], [])"
    by code_simp
  then show ?thesis
    by (simp add: runEvalTests_def passingCheck_def onClose_def)
qed

lemma runTrial_ok:
  "i \<noteq> 2 \<Longrightarrow>
   runTrial (Some Anthropic) exampleTask exampleConfig None (secondTrialThrows i) wd i =
     ([Spawn ''npx''], Returns (okRun i, Some \<lparr>inputTokens = 100, outputTokens = 50\<rparr>))"
  by (simp add: runTrial_def isAgentMode_def exampleConfig_def secondTrialThrows_def
      trialWorld_def sdkWorld_def answerOk_def runSDKEval_def andThen_def lift_def pure_def
      parse_goodResponse check_passingCheck okRun_def exampleTask_def Let_def)

lemma runTrial_throws:
  "runTrial (Some Anthropic) exampleTask exampleConfig None (secondTrialThrows 2) wd 2 =
     ([], Throws ''Request was aborted.'')"
  by (simp add: runTrial_def isAgentMode_def exampleConfig_def secondTrialThrows_def
      trialWorld_def sdkWorld_def runSDKEval_def andThen_def lift_def pure_def
      exampleTask_def Let_def)

lemma runEval_example:
  "snd (runEval (Some Anthropic) exampleTask exampleConfig None ''/repo'' secondTrialThrows None)
     = Returns exampleEvalResult"
proof -
  have n: "ExperimentConfig.runs exampleConfig = 3" by (simp add: exampleConfig_def)
  have f: "mkdirError (secondTrialThrows i) = None"
    "progressError (secondTrialThrows i) = None"
    "progressErrorInCatch (secondTrialThrows i) = None" for i
    by (simp_all add: secondTrialThrows_def trialWorld_def)
  have nm: "EvalDefinition.name exampleTask = ''generate-add-function''"
    by (simp add: exampleTask_def)
  show ?thesis
    by (simp add: runEval_def n nm runEvalLoop.simps runEvalIteration_def createWorkspace_def
        runTrial_ok runTrial_throws f andThen_def pure_def raise_def tryFinally_def
        catchBlock_def cleanupWorkspace_def debugOn_def Let_def exampleEvalResult_def
        okRun_def failedRun_def js_div_def addUsage_def)
qed

lemma runExperiment_example:
  "\<exists>ev ex. runExperiment exampleConfig ''evals'' ''/repo'' exampleExperiment None
             = (ev, Returns ex)
     \<and> evalResults ex = [exampleEvalResult]"
proof -
  obtain ev where "runEval (Some Anthropic) exampleTask exampleConfig None ''/repo''
                     secondTrialThrows None = (ev, Returns exampleEvalResult)"
    using runEval_example
    by (cases "runEval (Some Anthropic) exampleTask exampleConfig None ''/repo''
                 secondTrialThrows None") simp
  moreover have "\<not> isAgentMode exampleConfig" "\<not> truthy (skill exampleConfig)"
    by (simp_all add: isAgentMode_def exampleConfig_def truthy_def)
  moreover have "selectedEvals exampleExperiment = [exampleTask]"
    "trialEnvs exampleExperiment n = secondTrialThrows" for n
    by (simp_all add: exampleExperiment_def)
  ultimately show ?thesis
    by (simp add: runExperiment_def andThen_def pure_def Let_def)
qed

subsection \<open>Claim C1\<close>




section \<open>Token usage aggregates\<close>

text \<open>
  Claim C8. The token usage of a task result is present exactly when one of the two sums
  over the usage of its recorded trials is not zero, and it is then these sums; otherwise
  it is absent, never a record of zeros. The same holds for the usage of an experiment
  over the usage of its task results (an absent one counts as zero), which is what
  \<open>runExperiment\<close> returns.
\<close>

theorem usage_aggregate_present_iff_nonzero:
  "(runEval client evalDef cfg sk baseDir envs opts = (ev, Returns res) \<longrightarrow>
      EvalResult.totalUsage res =
        (if inputTokens (usageSum (runs res)) \<noteq> 0 \<or> outputTokens (usageSum (runs res)) \<noteq> 0
         then Some (usageSum (runs res)) else None))
   \<and> aggregatedUsageOf results =
        (if inputTokens (taskUsageSum results) \<noteq> 0 \<or> outputTokens (taskUsageSum results) \<noteq> 0
         then Some (taskUsageSum results) else None)
   \<and> (runExperiment cfg' evalsDir baseDir' env opts' = (ev', Returns ex) \<longrightarrow>
        ExperimentResult.totalUsage ex = aggregatedUsageOf (evalResults ex))"
proof (intro conjI impI)
  assume r: "runEval client evalDef cfg sk baseDir envs opts = (ev, Returns res)"
  let ?body = "\<lambda>i. runEvalIteration client evalDef cfg sk baseDir (envs i) opts i"
  from runEval_Returns [OF r] obtain tu
    where loop: "runEvalLoop ?body (ExperimentConfig.runs cfg) 1
                   ([], \<lparr>inputTokens = 0, outputTokens = 0\<rparr>) = (ev, Returns (runs res, tu))"
      and tot: "EvalResult.totalUsage res =
                  (if inputTokens tu > 0 \<or> outputTokens tu > 0 then Some tu else None)"
    by blast
  let ?I = "\<lambda>(j :: int) (st :: loop_state). snd st = usageSum (fst st)"
  have "?I (if 1 \<le> ExperimentConfig.runs cfg then ExperimentConfig.runs cfg + 1 else 1)
          (runs res, tu)"
  proof (rule runEvalLoop_invariant [OF loop, where I = ?I])
    fix j s e s'
    assume I: "?I j s" and b: "?body j s = (e, Returns s')"
    obtain rs0 tu0 where s: "s = (rs0, tu0)" by (cases s)
    obtain rs1 tu1 where s': "s' = (rs1, tu1)" by (cases s')
    from iteration_usage [of client evalDef cfg sk baseDir "envs j" opts j rs0 tu0 e rs1 tu1]
      I b s s'
    show "?I (j + 1) s'" by simp
  qed (simp add: usageSum_def)
  then have "tu = usageSum (runs res)" by simp
  with tot show "EvalResult.totalUsage res =
        (if inputTokens (usageSum (runs res)) \<noteq> 0 \<or> outputTokens (usageSum (runs res)) \<noteq> 0
         then Some (usageSum (runs res)) else None)" by simp
next
  show "aggregatedUsageOf results =
        (if inputTokens (taskUsageSum results) \<noteq> 0 \<or> outputTokens (taskUsageSum results) \<noteq> 0
         then Some (taskUsageSum results) else None)"
  proof -
    have "aggregatedUsageOf results =
        (let a = taskUsageSum results
         in if inputTokens a > 0 \<or> outputTokens a > 0 then Some a else None)"
      unfolding aggregatedUsageOf_def foldl_plus0 taskUsageSum_def [symmetric] by (rule refl)
    then show ?thesis by (simp add: Let_def)
  qed
next
  assume "runExperiment cfg' evalsDir baseDir' env opts' = (ev', Returns ex)"
  from runExperiment_Returns [OF this]
  show "ExperimentResult.totalUsage ex = aggregatedUsageOf (evalResults ex)" by simp
qed

theorem usage_aggregate_present_iff_nonzero_witness:
  "(\<exists>ev res. runEval (Some Anthropic) exampleTask exampleConfig None ''/repo''
               secondTrialThrows None = (ev, Returns res)
      \<and> usageSum (runs res) = \<lparr>inputTokens = 200, outputTokens = 100\<rparr>
      \<and> EvalResult.totalUsage res = Some \<lparr>inputTokens = 200, outputTokens = 100\<rparr>)
   \<and> aggregatedUsageOf [taskResult ''a'' 1 1, taskResult ''b'' 0 10] = None
   \<and> (\<exists>ev ex. runExperiment exampleConfig ''evals'' ''/repo'' exampleExperiment None
                 = (ev, Returns ex)
        \<and> ExperimentResult.totalUsage ex = Some \<lparr>inputTokens = 200, outputTokens = 100\<rparr>)"
proof -
  let ?m = "runEval (Some Anthropic) exampleTask exampleConfig None ''/repo''
              secondTrialThrows None"
  obtain ev where r: "?m = (ev, Returns exampleEvalResult)"
    using runEval_example by (cases ?m) simp
  from runExperiment_example obtain ev' ex
    where x: "runExperiment exampleConfig ''evals'' ''/repo'' exampleExperiment None
                = (ev', Returns ex)"
      and e: "evalResults ex = [exampleEvalResult]" by blast
  from usage_aggregate_present_iff_nonzero
    [of "Some Anthropic" exampleTask exampleConfig None "''/repo''" secondTrialThrows None ev
        exampleEvalResult "[taskResult ''a'' 1 1, taskResult ''b'' 0 10]"
        exampleConfig "''evals''" "''/repo''" exampleExperiment None ev' ex] r x
  have 1: "EvalResult.totalUsage exampleEvalResult =
        (if inputTokens (usageSum (runs exampleEvalResult)) \<noteq> 0
            \<or> outputTokens (usageSum (runs exampleEvalResult)) \<noteq> 0
         then Some (usageSum (runs exampleEvalResult)) else None)"
    and 2: "aggregatedUsageOf [taskResult ''a'' 1 1, taskResult ''b'' 0 10] =
        (if inputTokens (taskUsageSum [taskResult ''a'' 1 1, taskResult ''b'' 0 10]) \<noteq> 0
            \<or> outputTokens (taskUsageSum [taskResult ''a'' 1 1, taskResult ''b'' 0 10]) \<noteq> 0
         then Some (taskUsageSum [taskResult ''a'' 1 1, taskResult ''b'' 0 10]) else None)"
    and 3: "ExperimentResult.totalUsage ex = aggregatedUsageOf (evalResults ex)"
    by blast+
  have s: "usageSum (runs exampleEvalResult) = \<lparr>inputTokens = 200, outputTokens = 100\<rparr>"
    by (simp add: usageSum_def exampleEvalResult_def okRun_def failedRun_def)
  have "EvalResult.totalUsage exampleEvalResult = Some \<lparr>inputTokens = 200, outputTokens = 100\<rparr>"
    using 1 s by simp
  moreover have "aggregatedUsageOf [taskResult ''a'' 1 1, taskResult ''b'' 0 10] = None"
    using 2 by (simp add: taskUsageSum_def taskResult_def)
  moreover have "ExperimentResult.totalUsage ex = Some \<lparr>inputTokens = 200, outputTokens = 100\<rparr>"
    using 3 e by (simp add: aggregatedUsageOf_def exampleEvalResult_def)
  ultimately show ?thesis using r x s by auto
qed

section \<open>The overall pass rate\<close>

text \<open>
  Claim C2, as stated: the overall pass rate is the sum of the passed trials divided by
  the sum of the trials, over any list of task results. With a trial count of zero the
  sum of the trials is zero: the quotient is \<^verbatim>\<open>NaN\<close> in JavaScript, and the guard
  \<^verbatim>\<open>totalRuns > 0 ? ... : 0\<close> makes the overall pass rate zero.
\<close>

theorem overallPassRate_zero_trials_counterexample:
  "(case snd (runExperiment (exampleConfig\<lparr>ExperimentConfig.runs := 0\<rparr>) ''evals'' ''/repo''
                exampleExperiment None) of
      Returns ex \<Rightarrow>
        overallPassRate ex = Num 0
        \<and> js_div (of_nat (\<Sum>r\<leftarrow>evalResults ex. passedRuns r))
                 (of_int (\<Sum>r\<leftarrow>evalResults ex. totalRuns r)) = NaN
    | Throws msg \<Rightarrow> False
    | Hangs \<Rightarrow> False)"
  by (simp add: runExperiment_def runEval_def runEvalLoop.simps exampleConfig_def
      exampleExperiment_def isAgentMode_def truthy_def andThen_def pure_def Let_def
      overallPassRateOf_def js_div_def)

text \<open>
  Claim C2, amended. When the sum of the trials over the task results is positive, the
  overall pass rate is the sum of the passed trials divided by the sum of the trials: the
  ratio weighted by trials, not the mean of the pass rates of the tasks. Otherwise it is
  zero. \<open>runExperiment\<close> returns this value for its task results.
\<close>

theorem overallPassRate_trial_weighted:
  "overallPassRateOf results =
     (if 0 < (\<Sum>r\<leftarrow>results. totalRuns r)
      then js_div (of_nat (\<Sum>r\<leftarrow>results. passedRuns r)) (of_int (\<Sum>r\<leftarrow>results. totalRuns r))
      else Num 0)
   \<and> (runExperiment cfg evalsDir baseDir env opts = (ev, Returns ex) \<longrightarrow>
        overallPassRate ex = overallPassRateOf (evalResults ex))"
proof (intro conjI impI)
  show "overallPassRateOf results =
     (if 0 < (\<Sum>r\<leftarrow>results. totalRuns r)
      then js_div (of_nat (\<Sum>r\<leftarrow>results. passedRuns r)) (of_int (\<Sum>r\<leftarrow>results. totalRuns r))
      else Num 0)"
    by (simp add: overallPassRateOf_def foldl_plus Let_def)
next
  assume "runExperiment cfg evalsDir baseDir env opts = (ev, Returns ex)"
  from runExperiment_Returns [OF this]
  show "overallPassRate ex = overallPassRateOf (evalResults ex)" by simp
qed

text \<open>
  A task with one trial that passes and a task with ten trials that all fail: the overall
  pass rate is \<open>1 / 11\<close>, and the mean of the two pass rates is \<open>1 / 2\<close>.
\<close>

theorem overallPassRate_trial_weighted_witness:
  "overallPassRateOf [taskResult ''one-trial'' 1 1, taskResult ''ten-trials'' 0 10] = Num (1 / 11)
   \<and> Num (1 / 11) \<noteq> Num ((1 / 1 + 0 / 10) / 2)
   \<and> (\<exists>ev ex. runExperiment exampleConfig ''evals'' ''/repo'' exampleExperiment None
                 = (ev, Returns ex)
        \<and> overallPassRate ex = Num (2 / 3))"
proof -
  from runExperiment_example obtain ev ex
    where x: "runExperiment exampleConfig ''evals'' ''/repo'' exampleExperiment None
                = (ev, Returns ex)"
      and e: "evalResults ex = [exampleEvalResult]" by blast
  from overallPassRate_trial_weighted
    [of "[taskResult ''one-trial'' 1 1, taskResult ''ten-trials'' 0 10]"
        exampleConfig "''evals''" "''/repo''" exampleExperiment None ev ex] x
  have "overallPassRateOf [taskResult ''one-trial'' 1 1, taskResult ''ten-trials'' 0 10] =
          Num (1 / 11)"
    and "overallPassRate ex = overallPassRateOf (evalResults ex)"
    by (simp_all add: taskResult_def js_div_def)
  moreover have "overallPassRateOf [exampleEvalResult] = Num (2 / 3)"
    by (simp add: overallPassRateOf_def exampleEvalResult_def js_div_def)
  ultimately show ?thesis using x e by auto
qed

section \<open>The Check Runner falls back to the exit code\<close>

text \<open>
  Claim C6. When the structured report cannot be parsed from the output of the test
  runner (the pattern of the report finds nothing in stdout, or \<^verbatim>\<open>JSON.parse\<close> throws
  on what it finds), \<open>runEvalTests\<close> resolves with the reading of the exit code: passed
  with one test of one for exit code zero, failed with zero of one for any other code
  (or none); it does not reject.
\<close>

theorem runEvalTests_falls_back_to_exit_code:
  assumes "vitest env = Closed code out err"
    and "rx_search jsonReportRegex out = None
         \<or> (\<exists>m c rest. rx_search jsonReportRegex out = Some (m, c, rest) \<and> jsonParse env m = None)"
  shows "runEvalTests env workspaceDir evalFileName =
           ([Spawn ''npx''],
            Returns \<lparr>TestResult.passed = (code = Some 0),
                     TestResult.testsPassed = (if code = Some 0 then 1 else 0),
                     TestResult.testsTotal = 1,
                     testOutput = out @ err\<rparr>)"
  using assms
  by (auto simp: runEvalTests_def onClose_def exitCodeResult_def)

lemma reportOutput_match: "rx_search jsonReportRegex reportOutput = Some (reportOutput, [], [])"
  by code_simp

lemma noReport_match: "rx_search jsonReportRegex ''3 passed'' = None"
  by code_simp

theorem runEvalTests_falls_back_to_exit_code_witness:
  "runEvalTests noReport ''/repo/ws'' ''EVAL.ts'' =
     ([Spawn ''npx''],
      Returns \<lparr>TestResult.passed = True, TestResult.testsPassed = 1,
               TestResult.testsTotal = 1, testOutput = ''3 passed''\<rparr>)
   \<and> runEvalTests brokenReport ''/repo/ws'' ''EVAL.ts'' =
     ([Spawn ''npx''],
      Returns \<lparr>TestResult.passed = False, TestResult.testsPassed = 0,
               TestResult.testsTotal = 1, testOutput = reportOutput @ ''boom''\<rparr>)"
proof -
  have a: "vitest noReport = Closed (Some 0) ''3 passed'' []"
    and b: "vitest brokenReport = Closed (Some 1) reportOutput ''boom''"
    and c: "jsonParse brokenReport reportOutput = None"
    by (simp_all add: noReport_def brokenReport_def)
  from runEvalTests_falls_back_to_exit_code [OF a, of "''/repo/ws''" "''EVAL.ts''"] noReport_match
    runEvalTests_falls_back_to_exit_code [OF b, of "''/repo/ws''" "''EVAL.ts''"]
    reportOutput_match c
  show ?thesis by simp
qed

section \<open>The Direct-Call Strategy with no file\<close>

lemma parse_refusal: "parseGeneratedFiles (responseText refusal) = []"
  unfolding refusal_def by code_simp

text \<open>
  Claim C5, as stated: a response from which no file is extracted gives a failed result
  with the error \<open>no files were generated\<close>. The message of the code is another string.
\<close>

theorem runSDKEval_no_files_counterexample:
  "(case snd (runSDKEval (sdkWorld (Returns refusal)) passingCheck exampleTask exampleConfig None
                ''/repo/ws'' 1) of
      Returns (r, u) \<Rightarrow>
        error r = Some ''No files were generated by the agent''
        \<and> error r \<noteq> Some ''no files were generated''
    | Throws msg \<Rightarrow> False
    | Hangs \<Rightarrow> False)"
  by (simp add: runSDKEval_def sdkWorld_def andThen_def lift_def pure_def parse_refusal
      noFilesMessage_def Let_def)

text \<open>
  Claim C5, amended. In the direct-call strategy, for every response of the model from
  which no file is extracted (the mapping is empty after both passes), \<open>runSDKEval\<close>
  returns (it does not throw) the failed result with \<open>passed = false\<close>, zero checks of
  one, and the error \<open>No files were generated by the agent\<close>; no process is spawned, so the
  check runner is not invoked, and the trial yields this result.
\<close>

theorem runSDKEval_no_files:
  assumes "sdkStarterFiles env = Returns copied"
    and "claude env (model cfg)
           (case sk of None \<Rightarrow> prompt evalDef
            | Some s \<Rightarrow> augmentPromptWithSkill (prompt evalDef) s) (timeout cfg) = Returns api"
    and "parseGeneratedFiles (responseText api) = []"
  shows "runSDKEval env cenv evalDef cfg sk workspaceDir n =
           ([], Returns (\<lparr>runNumber = n, passed = False, testsPassed = 0, testsTotal = 1,
                          durationMs = sdkElapsed env,
                          error = Some ''No files were generated by the agent'',
                          agentOutput = Some (responseText api), generatedFiles = Some [],
                          usage = Some (responseUsage api)\<rparr>, responseUsage api))
       \<and> (\<not> isAgentMode cfg \<and> sdkEnv tenv = env \<longrightarrow>
            runTrial (Some Anthropic) evalDef cfg sk tenv workspaceDir n =
              ([], Returns (\<lparr>runNumber = n, passed = False, testsPassed = 0, testsTotal = 1,
                          durationMs = sdkElapsed env,
                          error = Some ''No files were generated by the agent'',
                          agentOutput = Some (responseText api), generatedFiles = Some [],
                          usage = Some (responseUsage api)\<rparr>, Some (responseUsage api))))"
proof -
  have 1: "runSDKEval env cenv evalDef cfg sk workspaceDir n =
           ([], Returns (\<lparr>runNumber = n, passed = False, testsPassed = 0, testsTotal = 1,
                          durationMs = sdkElapsed env,
                          error = Some ''No files were generated by the agent'',
                          agentOutput = Some (responseText api), generatedFiles = Some [],
                          usage = Some (responseUsage api)\<rparr>, responseUsage api))" for cenv
    using assms
    by (simp add: runSDKEval_def andThen_def lift_def pure_def noFilesMessage_def Let_def)
  then show ?thesis
    by (simp add: runTrial_def andThen_def pure_def)
qed

theorem runSDKEval_no_files_witness:
  "runSDKEval (sdkWorld (Returns refusal)) passingCheck exampleTask exampleConfig None
     ''/repo/ws'' 1 =
     ([], Returns (\<lparr>runNumber = 1, passed = False, testsPassed = 0, testsTotal = 1,
                    durationMs = 1500,
                    error = Some ''No files were generated by the agent'',
                    agentOutput = Some ''I can only describe the function in words.'',
                    generatedFiles = Some [],
                    usage = Some \<lparr>inputTokens = 40, outputTokens = 9\<rparr>\<rparr>,
                   \<lparr>inputTokens = 40, outputTokens = 9\<rparr>))
   \<and> fst (runTrial (Some Anthropic) exampleTask exampleConfig None
            (trialWorld (sdkWorld (Returns refusal)) (agentWorld stubbornAgent []) passingCheck)
            ''/repo/ws'' 1) = []"
proof -
  let ?w = "trialWorld (sdkWorld (Returns refusal)) (agentWorld stubbornAgent []) passingCheck"
  have a: "sdkStarterFiles (sdkWorld (Returns refusal)) = Returns []"
    and b: "claude (sdkWorld (Returns refusal)) (model exampleConfig)
           (case None of None \<Rightarrow> prompt exampleTask
            | Some s \<Rightarrow> augmentPromptWithSkill (prompt exampleTask) s) (timeout exampleConfig)
           = Returns refusal"
    and c: "sdkElapsed (sdkWorld (Returns refusal)) = 1500"
    by (simp_all add: sdkWorld_def)
  have d: "\<not> isAgentMode exampleConfig" "sdkEnv ?w = sdkWorld (Returns refusal)"
    by (simp_all add: isAgentMode_def exampleConfig_def trialWorld_def)
  from runSDKEval_no_files
    [OF a b parse_refusal, where tenv = ?w and cenv = passingCheck
       and workspaceDir = "''/repo/ws''" and n = 1] c d
  show ?thesis by (simp add: refusal_def)
qed

section \<open>The Agent-Session Strategy\<close>

lemma executeAgent_success:
  assumes "executeAgent pr cfg wd tmo = (ev, Returns ar)"
    and "agent cfg \<noteq> None" and "spawnError pr = None"
  shows "success ar = ((\<exists>e. exitsAfter pr = Some e \<and> e < tmo * 1000) \<and> exitStatus pr = 0)"
  using assms
  by (auto simp: executeAgent_def kill_def pure_def Let_def
      split: option.splits if_splits prod.splits)

text \<open>
  Claim C3. With a timeout of \<open>T\<close> seconds and an agent that does not exit by itself,
  SIGTERM is sent at \<open>T\<close>; the claim adds that SIGKILL is sent five seconds later if the
  process has not exited by then, and that the trial result has its error set. The code
  does not do this: the inner timer sends SIGKILL only if \<^verbatim>\<open>agent.killed\<close> is false, and
  \<^verbatim>\<open>agent.kill(SIGTERM)\<close> has set it when it sent the signal. So no run of
  \<open>executeAgent\<close> ever sends SIGKILL. With a timeout of one second, an agent that ignores
  SIGTERM gets SIGTERM at 1000 ms and nothing more, and \<open>executeAgent\<close> never resolves; an
  agent that needs seven seconds to stop gets no SIGKILL at 6000 ms and the promise
  resolves, as a failure, only when it stops.
\<close>

theorem executeAgent_never_sends_SIGKILL:
  "Kill SIGKILL t \<notin> set (fst (executeAgent pr cfg workspaceDir tmo))
   \<and> executeAgent stubbornAgent agentConfigExample workspaceDir 1 =
       ([Spawn ''claude'', Kill SIGTERM 1000], Hangs)
   \<and> executeAgent slowToStop agentConfigExample workspaceDir 1 =
       ([Spawn ''claude'', Kill SIGTERM 1000],
        Returns \<lparr>exitCode = 1, stdout = [], stderr = [NL] @ ''[Agent timed out]'',
                 success = False, usage = None\<rparr>)"
proof (intro conjI)
  show "Kill SIGKILL t \<notin> set (fst (executeAgent pr cfg workspaceDir tmo))"
    by (auto simp: executeAgent_def kill_def pure_def Let_def split: option.splits if_splits)
  show "executeAgent stubbornAgent agentConfigExample workspaceDir 1 =
       ([Spawn ''claude'', Kill SIGTERM 1000], Hangs)"
    by (simp add: executeAgent_def kill_def agentConfigExample_def stubbornAgent_def
        earlier_def parseUsage_def Let_def)
  show "executeAgent slowToStop agentConfigExample workspaceDir 1 =
       ([Spawn ''claude'', Kill SIGTERM 1000],
        Returns \<lparr>exitCode = 1, stdout = [], stderr = [NL] @ ''[Agent timed out]'',
                 success = False, usage = None\<rparr>)"
    by (simp add: executeAgent_def kill_def agentConfigExample_def slowToStop_def
        earlier_def parseUsage_def Let_def)
qed

text \<open>
  Claim C10. In agent-session mode, when the execution of the agent resolves without
  success (the process exits with a code other than zero, or the timeout ends it) but
  the workspace holds a generated file and the check run passes, the result of the trial
  has \<open>passed = true\<close> and the counts of the check run, and its error is still the
  failure of the agent, \<open>Agent exited with code N\<close>: a passed trial can carry an error.
\<close>

theorem agent_failure_keeps_passing_trial:
  assumes "isAgentMode cfg"
    and "agentStarterFiles (agentEnv env) = Returns copied"
    and "truthy (skill cfg) \<and> skillFileExists (agentEnv env) \<longrightarrow> copySkillError (agentEnv env) = None"
    and "writePromptError (agentEnv env) = None"
    and "executeAgent (proc (agentEnv env)) cfg wd (timeout cfg) = (ev1, Returns ar)"
    and "\<not> success ar"
    and "workspaceGlob (agentEnv env) = Returns found"
    and "filter (\<lambda>f. f \<noteq> ''PROMPT.md'' \<and> f \<noteq> ''SKILL.md'') found \<noteq> []"
    and "runEvalTests (checkEnv env) wd (evalFile evalDef) = (ev2, Returns tr)"
    and "TestResult.passed tr"
  shows "\<exists>r. runTrial client evalDef cfg sk env wd i = (ev1 @ ev2, Returns (r, AgentExecutionResult.usage ar))
           \<and> passed r
           \<and> error r = Some (''Agent exited with code '' @ show_int (exitCode ar))
           \<and> testsPassed r = TestResult.testsPassed tr
           \<and> testsTotal r = TestResult.testsTotal tr"
proof -
  have a: "runAgentEval (agentEnv env) evalDef cfg wd i =
     (ev1, Returns \<lparr>runNumber = i, passed = False, testsPassed = 0, testsTotal = 0,
                durationMs = agentElapsed (agentEnv env),
                error = Some (''Agent exited with code '' @ show_int (exitCode ar)),
                agentOutput = Some (stdout ar @
                  (if stderr ar \<noteq> [] then [NL, NL] @ ''STDERR:'' @ [NL] @ stderr ar else [])),
                generatedFiles = Some (filter (\<lambda>f. f \<noteq> ''PROMPT.md'' \<and> f \<noteq> ''SKILL.md'') found),
                usage = AgentExecutionResult.usage ar\<rparr>)"
    using assms(2-7)
    by (auto simp: runAgentEval_def andThen_def tryCatch_def lift_def failing_def pure_def
        listGeneratedFiles_def)
  show ?thesis
    using assms(1,8-10)
    by (simp add: runTrial_def a andThen_def pure_def)
qed

theorem agent_failure_keeps_passing_trial_witness:
  "(\<exists>r. runTrial None exampleTask (agentConfigExample\<lparr>timeout := 120\<rparr>) None
          (trialWorld (sdkWorld answerOk)
             (agentWorld (exitingAgent 5000 2) [''math.ts'', ''PROMPT.md'']) passingCheck)
          ''/repo/ws'' 1 = ([Spawn ''claude'', Spawn ''npx''], Returns (r, None))
        \<and> passed r \<and> error r = Some ''Agent exited with code 2''
        \<and> testsPassed r = 3 \<and> testsTotal r = 3)"
proof -
  let ?cfg = "agentConfigExample\<lparr>timeout := 120\<rparr>"
  let ?a = "agentWorld (exitingAgent 5000 2) [''math.ts'', ''PROMPT.md'']"
  let ?w = "trialWorld (sdkWorld answerOk) ?a passingCheck"
  let ?ar = "\<lparr>exitCode = 2, stdout = ''done'', stderr = [], success = False, usage = None\<rparr>"
  have env: "agentEnv ?w = ?a" "checkEnv ?w = passingCheck"
    by (simp_all add: trialWorld_def)
  have 1: "isAgentMode ?cfg" by (simp add: isAgentMode_def agentConfigExample_def)
  have 2: "agentStarterFiles (agentEnv ?w) = Returns []"
    and 3: "truthy (skill ?cfg) \<and> skillFileExists (agentEnv ?w) \<longrightarrow>
              copySkillError (agentEnv ?w) = None"
    and 4: "writePromptError (agentEnv ?w) = None"
    and 7: "workspaceGlob (agentEnv ?w) = Returns [''math.ts'', ''PROMPT.md'']"
    unfolding env by (simp_all add: agentWorld_def)
  have 5: "executeAgent (proc (agentEnv ?w)) ?cfg ''/repo/ws'' (timeout ?cfg) =
             ([Spawn ''claude''], Returns ?ar)"
    unfolding env
    by (simp add: agentWorld_def exitingAgent_def executeAgent_def agentConfigExample_def
        parseUsage_def Let_def)
  have 6: "\<not> success ?ar" by simp
  have 8: "filter (\<lambda>f. f \<noteq> ''PROMPT.md'' \<and> f \<noteq> ''SKILL.md'') [''math.ts'', ''PROMPT.md''] \<noteq> []"
    by simp
  have 9: "runEvalTests (checkEnv ?w) ''/repo/ws'' (evalFile exampleTask) =
             ([Spawn ''npx''],
              Returns \<lparr>TestResult.passed = True, TestResult.testsPassed = 3,
                       TestResult.testsTotal = 3, testOutput = reportOutput\<rparr>)"
    unfolding env by (rule check_passingCheck)
  have s: "show_int 2 = ''2''" by (simp add: show_int_def show_nat.simps digit_char_def)
  from agent_failure_keeps_passing_trial [OF 1 2 3 4 5 6 7 8 9, of None None 1] s
  show ?thesis by simp
qed

section \<open>Workspace paths\<close>

subsection \<open>Splitting and joining\<close>

lemma split_char_not_Nil [simp]: "split_char c s \<noteq> []"
  by (induction s) (auto split: list.splits)

lemma split_char_free: "c \<notin> set s \<Longrightarrow> split_char c s = [s]"
  by (induction s) auto

lemma split_char_append_sep: "split_char c (a @ c # b) = split_char c a @ split_char c b"
proof (induction a)
  case Nil
  then show ?case by simp
next
  case (Cons x a)
  then show ?case by (cases "split_char c a") auto
qed

lemma split_char_append_free:
  "c \<notin> set t \<Longrightarrow>
     split_char c (p @ t) = butlast (split_char c p) @ [last (split_char c p) @ t]"
proof (induction p)
  case Nil
  then show ?case by (simp add: split_char_free)
next
  case (Cons x p)
  then show ?case by (cases "split_char c p") (auto split: list.splits)
qed

lemma split_char_parts_free: "x \<in> set (split_char c s) \<Longrightarrow> c \<notin> set x"
proof (induction s arbitrary: x)
  case Nil
  then show ?case by simp
next
  case (Cons y s)
  then show ?case by (cases "split_char c s") (auto split: if_splits)
qed

lemma split_join:
  "xs \<noteq> [] \<Longrightarrow> \<forall>x \<in> set xs. c \<notin> set x \<Longrightarrow> split_char c (join_with [c] xs) = xs"
proof (induction xs)
  case Nil
  then show ?case by simp
next
  case (Cons l ls)
  show ?case
  proof (cases ls)
    case Nil
    with Cons.prems show ?thesis by (simp add: split_char_free)
  next
    case (Cons v va)
    with Cons.IH Cons.prems have "split_char c (join_with [c] ls) = ls" by simp
    with Cons Cons.prems split_char_append_sep [of c l "join_with [c] ls"]
    show ?thesis by (simp add: split_char_free)
  qed
qed

subsection \<open>Decimal notation is injective\<close>

lemma less_ten:
  "d < (10 :: nat) \<Longrightarrow>
     d = 0 \<or> d = 1 \<or> d = 2 \<or> d = 3 \<or> d = 4 \<or> d = 5 \<or> d = 6 \<or> d = 7 \<or> d = 8 \<or> d = 9"
  by presburger

lemma digit_char_val: "d < 10 \<Longrightarrow> (of_char (digit_char d) :: nat) = 48 + d"
  using less_ten [of d] by (auto simp: digit_char_def)

lemma read_nat_snoc: "read_nat (s @ [c]) = 10 * read_nat s + (of_char c - 48)"
  by (simp add: read_nat_def)

lemma read_show_nat: "read_nat (show_nat n) = n"
proof (induction n rule: show_nat.induct)
  case (1 n)
  show ?case
  proof (cases "n < 10")
    case True
    then show ?thesis
      by (subst show_nat.simps) (simp add: read_nat_def digit_char_val)
  next
    case False
    with 1 have "read_nat (show_nat (n div 10)) = n div 10" by simp
    with False show ?thesis
      by (subst show_nat.simps) (simp add: read_nat_snoc digit_char_val)
  qed
qed

lemma show_nat_inj: "show_nat m = show_nat n \<Longrightarrow> m = n"
  by (metis read_show_nat)

lemma show_nat_digits: "c \<in> set (show_nat n) \<Longrightarrow> \<exists>d < 10. c = digit_char d"
proof (induction n rule: show_nat.induct)
  case (1 n)
  show ?case
  proof (cases "n < 10")
    case True
    with "1.prems" show ?thesis by (subst (asm) show_nat.simps) auto
  next
    case False
    with "1.prems" have "c \<in> set (show_nat (n div 10)) \<or> c = digit_char (n mod 10)"
      by (subst (asm) show_nat.simps) auto
    with 1 False show ?thesis by (metis mod_less_divisor zero_less_numeral)
  qed
qed

lemma show_nat_not_Nil: "show_nat n \<noteq> []"
  by (subst show_nat.simps) simp

lemma digit_char_not_dash: "d < 10 \<Longrightarrow> digit_char d \<noteq> CHR ''-''"
  using less_ten [of d] by (auto simp: digit_char_def)

lemma digit_char_not_slash: "d < 10 \<Longrightarrow> digit_char d \<noteq> CHR ''/''"
  using less_ten [of d] by (auto simp: digit_char_def)

lemma show_nat_no_dash: "CHR ''-'' \<notin> set (show_nat n)"
proof
  assume "CHR ''-'' \<in> set (show_nat n)"
  from show_nat_digits [OF this] obtain d where "d < 10" and "CHR ''-'' = digit_char d"
    by blast
  with digit_char_not_dash [of d] show False by simp
qed

lemma show_nat_no_slash: "CHR ''/'' \<notin> set (show_nat n)"
proof
  assume "CHR ''/'' \<in> set (show_nat n)"
  from show_nat_digits [OF this] obtain d where "d < 10" and "CHR ''/'' = digit_char d"
    by blast
  with digit_char_not_slash [of d] show False by simp
qed

lemma show_int_inj: "show_int i = show_int j \<Longrightarrow> i = j"
proof -
  assume e: "show_int i = show_int j"
  have hd: "hd (show_nat n) \<noteq> CHR ''-''" for n
    using show_nat_no_dash [of n] show_nat_not_Nil [of n] by (cases "show_nat n") auto
  show ?thesis
  proof (cases "i < 0"; cases "j < 0")
    assume "i < 0" "j < 0"
    with e have "nat (- i) = nat (- j)" by (auto simp: show_int_def dest: show_nat_inj)
    with \<open>i < 0\<close> \<open>j < 0\<close> show ?thesis by simp
  next
    assume "i < 0" "\<not> j < 0"
    with e have "CHR ''-'' # show_nat (nat (- i)) = show_nat (nat j)"
      by (simp add: show_int_def)
    then have "hd (show_nat (nat j)) = CHR ''-''" by (metis list.sel(1))
    with hd [of "nat j"] show ?thesis by simp
  next
    assume "\<not> i < 0" "j < 0"
    with e have "CHR ''-'' # show_nat (nat (- j)) = show_nat (nat i)"
      by (simp add: show_int_def)
    then have "hd (show_nat (nat i)) = CHR ''-''" by (metis list.sel(1))
    with hd [of "nat i"] show ?thesis by simp
  next
    assume "\<not> i < 0" "\<not> j < 0"
    with e have "nat i = nat j" by (auto simp: show_int_def dest: show_nat_inj)
    with \<open>\<not> i < 0\<close> \<open>\<not> j < 0\<close> show ?thesis by simp
  qed
qed

lemma show_int_no_slash: "CHR ''/'' \<notin> set (show_int i)"
  by (simp add: show_int_def show_nat_no_slash)

lemma takeWhile_sep: "c \<notin> set d \<Longrightarrow> takeWhile (\<lambda>x. x \<noteq> c) (d @ c # r) = d"
  by (induction d) auto

lemma last_separator:
  assumes "a1 @ c # d1 = a2 @ c # d2" and "c \<notin> set d1" and "c \<notin> set d2"
  shows "a1 = a2 \<and> d1 = d2"
proof -
  from assms(1) have "rev d1 @ c # rev a1 = rev d2 @ c # rev a2"
    by (metis rev.simps(2) rev_append append_assoc append_Cons append_Nil)
  then have "takeWhile (\<lambda>x. x \<noteq> c) (rev d1 @ c # rev a1) =
             takeWhile (\<lambda>x. x \<noteq> c) (rev d2 @ c # rev a2)" by simp
  with assms(2,3) have "rev d1 = rev d2" by (simp add: takeWhile_sep)
  with assms(1) show ?thesis by simp
qed

subsection \<open>The last segment of a joined path\<close>

lemma norm_step_parts_free:
  "\<forall>x \<in> set res. c \<notin> set x \<Longrightarrow> c \<notin> set seg \<Longrightarrow> c \<noteq> CHR ''.'' \<Longrightarrow>
     \<forall>x \<in> set (norm_step ab res seg). c \<notin> set x"
  by (auto simp: norm_step_def dest: in_set_butlastD)

lemma foldl_norm_step_parts_free:
  "\<forall>x \<in> set res. c \<notin> set x \<Longrightarrow> \<forall>x \<in> set segs. c \<notin> set x \<Longrightarrow> c \<noteq> CHR ''.'' \<Longrightarrow>
     \<forall>x \<in> set (foldl (norm_step ab) res segs). c \<notin> set x"
proof (induction segs arbitrary: res)
  case Nil
  then show ?case by simp
next
  case (Cons s segs)
  from Cons.prems have "\<forall>x \<in> set (norm_step ab res s). c \<notin> set x"
    by (intro norm_step_parts_free) auto
  with Cons.IH [of "norm_step ab res s"] Cons.prems show ?case by simp
qed

lemma join_with_not_Nil: "xs \<noteq> [] \<Longrightarrow> last xs \<noteq> [] \<Longrightarrow> join_with sep xs \<noteq> []"
  by (induction sep xs rule: join_with.induct) auto

lemma last_join_with:
  "xs \<noteq> [] \<Longrightarrow> last xs \<noteq> [] \<Longrightarrow> last (join_with sep xs) = last (last xs)"
proof (induction sep xs rule: join_with.induct)
  case (1 sep)
  then show ?case by simp
next
  case (2 sep l)
  then show ?case by simp
next
  case (3 sep l v va)
  then have "join_with sep (v # va) \<noteq> []" by (intro join_with_not_Nil) auto
  with 3 show ?case by simp
qed

lemma normalize_last_segment:
  assumes "last (split_char CHR ''/'' p) = seg" and "plainSegment seg"
  shows "last (split_char CHR ''/'' (normalize p)) = seg"
proof -
  let ?c = "CHR ''/''"
  let ?segs = "split_char ?c p"
  let ?above = "hd p \<noteq> ?c"
  have segs: "?segs = butlast ?segs @ [seg]"
    using assms(1) by (metis append_butlast_last_id split_char_not_Nil)
  let ?res = "foldl (norm_step ?above) [] (butlast ?segs)"
  have fold: "foldl (norm_step ?above) [] ?segs = ?res @ [seg]"
    using assms(2) by (subst segs) (simp add: norm_step_def plainSegment_def)
  have free: "\<forall>x \<in> set (?res @ [seg]). ?c \<notin> set x"
    unfolding fold [symmetric]
    by (intro foldl_norm_step_parts_free) (auto dest: split_char_parts_free)
  have ns: "normalizeString p ?above = join_with ''/'' (?res @ [seg])"
    by (simp add: normalizeString_def fold)
  have ne: "join_with ''/'' (?res @ [seg]) \<noteq> []"
    using assms(2) by (intro join_with_not_Nil) (auto simp: plainSegment_def)
  have sj: "split_char ?c (join_with ''/'' (?res @ [seg])) = ?res @ [seg]"
    using free by (intro split_join) auto
  have pne: "p \<noteq> []" using assms by (auto simp: plainSegment_def)
  have "seg \<noteq> []" using assms(2) by (simp add: plainSegment_def)
  have lastp: "last p \<noteq> ?c"
  proof
    assume "last p = ?c"
    with pne have "p = butlast p @ [?c]" by (metis append_butlast_last_id)
    then have "split_char ?c p = split_char ?c (butlast p) @ split_char ?c []"
      using split_char_append_sep [of ?c "butlast p" "[]"] by simp
    with assms(1) \<open>seg \<noteq> []\<close> show False by simp
  qed
  show ?thesis
    using pne lastp ne sj ns
    by (auto simp: normalize_def Let_def)
qed

lemma pathJoin_last_segment:
  assumes "last (split_char CHR ''/'' rid) = seg" and "plainSegment seg"
  shows "last (split_char CHR ''/'' (pathJoin [baseDir, ''.workspaces'', rid])) = seg"
proof -
  have rid: "rid \<noteq> []" using assms by (auto simp: plainSegment_def)
  obtain q where q: "join_with ''/'' (filter (\<lambda>a. a \<noteq> []) [baseDir, ''.workspaces'', rid])
                       = q @ CHR ''/'' # rid"
    using rid by (cases "baseDir = []") auto
  have "last (split_char CHR ''/'' (q @ CHR ''/'' # rid)) = seg"
    using assms(1) by (simp add: split_char_append_sep)
  from normalize_last_segment [OF this assms(2)] q show ?thesis
    by (simp add: pathJoin_def Let_def)
qed

lemma runId_last_segment:
  "last (split_char CHR ''/'' (runId evalDef cfg i t)) =
     last (split_char CHR ''/'' (EvalDefinition.name evalDef @ ''-'' @ ExperimentConfig.name cfg))
       @ ''-run'' @ show_int i @ ''-'' @ show_nat t"
proof -
  have "CHR ''/'' \<notin> set (''-run'' @ show_int i @ ''-'' @ show_nat t)"
    by (simp add: show_int_no_slash show_nat_no_slash)
  from split_char_append_free [OF this,
      of "EvalDefinition.name evalDef @ ''-'' @ ExperimentConfig.name cfg"]
  show ?thesis by (simp add: runId_def)
qed

text \<open>
  Claim C9. Two distinct trials of the same task under the same configuration get
  distinct workspace directories, whatever the two timestamps are (equal ones too): the
  last segment of the path ends with the trial index and the timestamp, and
  \<^verbatim>\<open>path.join\<close> keeps it.
\<close>

theorem workspace_paths_distinct:
  assumes "i \<noteq> j"
  shows "\<exists>p q. createWorkspace None baseDir (runId evalDef cfg i t1) = ([Mkdir p], Returns p)
           \<and> createWorkspace None baseDir (runId evalDef cfg j t2) = ([Mkdir q], Returns q)
           \<and> p \<noteq> q"
proof -
  let ?z = "last (split_char CHR ''/''
              (EvalDefinition.name evalDef @ ''-'' @ ExperimentConfig.name cfg))"
  let ?seg = "\<lambda>i t. ?z @ ''-run'' @ show_int i @ ''-'' @ show_nat t"
  let ?p = "\<lambda>i t. pathJoin [baseDir, ''.workspaces'', runId evalDef cfg i t]"
  have plain: "plainSegment (?seg k t)" for k t
  proof (unfold plainSegment_def, intro conjI notI)
    assume "?seg k t = []"
    from arg_cong [OF this, of length] show False by simp
  next
    assume "?seg k t = ''.''"
    from arg_cong [OF this, of length] show False by simp
  next
    assume "?seg k t = ''..''"
    from arg_cong [OF this, of length] show False by simp
  qed
  have seg: "last (split_char CHR ''/'' (?p k t)) = ?seg k t" for k t
    by (rule pathJoin_last_segment [OF runId_last_segment plain])
  have "?p i t1 \<noteq> ?p j t2"
  proof
    assume "?p i t1 = ?p j t2"
    with seg [of i t1] seg [of j t2] have "?seg i t1 = ?seg j t2" by simp
    then have "show_int i @ CHR ''-'' # show_nat t1 = show_int j @ CHR ''-'' # show_nat t2"
      by simp
    from last_separator [OF this show_nat_no_dash show_nat_no_dash]
    have "show_int i = show_int j" by simp
    with show_int_inj assms show False by blast
  qed
  then show ?thesis by (simp add: createWorkspace_def Let_def)
qed

text \<open>The first two trials of the example task, named in the same millisecond.\<close>

theorem workspace_paths_distinct_witness:
  "(1 :: int) \<noteq> 2
   \<and> createWorkspace None ''/repo'' (runId exampleTask exampleConfig 1 1700) =
       ([Mkdir ''/repo/.workspaces/generate-add-function-baseline-run1-1700''],
        Returns ''/repo/.workspaces/generate-add-function-baseline-run1-1700'')
   \<and> createWorkspace None ''/repo'' (runId exampleTask exampleConfig 2 1700) =
       ([Mkdir ''/repo/.workspaces/generate-add-function-baseline-run2-1700''],
        Returns ''/repo/.workspaces/generate-add-function-baseline-run2-1700'')"
proof -
  have a: "createWorkspace None ''/repo'' (runId exampleTask exampleConfig 1 1700) =
       ([Mkdir ''/repo/.workspaces/generate-add-function-baseline-run1-1700''],
        Returns ''/repo/.workspaces/generate-add-function-baseline-run1-1700'')"
    by code_simp
  have b: "createWorkspace None ''/repo'' (runId exampleTask exampleConfig 2 1700) =
       ([Mkdir ''/repo/.workspaces/generate-add-function-baseline-run2-1700''],
        Returns ''/repo/.workspaces/generate-add-function-baseline-run2-1700'')"
    by code_simp
  have c: "(1 :: int) \<noteq> 2" by simp
  from workspace_paths_distinct [OF c, of "''/repo''" exampleTask exampleConfig 1700 1700] a b c
  show ?thesis by simp
qed

end
